theory Spec2Isabelle
  imports Complex_Main "HOL-Library.Char_ord" "HOL-Library.List_Lexorder" "HOL-Library.Product_Lexorder"
begin

section \<open>Python values\<close>

text \<open>
  Tasks are Python objects. The constructors cover the values the claims speak about:
  \<open>None\<close>, integers, strings, lists, and an object carrying a numeric \<open>priority\<close>
  attribute together with a payload. \<open>truthy\<close> is Python's truth test (\<open>if obj:\<close>);
  an object without \<open>__bool__\<close>/\<open>__len__\<close> is true.

  A Python number is an \<open>int\<close>, which is unbounded, or a \<open>float\<close>, which is an IEEE-754
  double: \<open>Finite m e\<close> is the double of value \<open>m * 2 ^ e\<close>, \<open>Infinity True\<close> and
  \<open>Infinity False\<close> are \<open>inf\<close> and \<open>-inf\<close>, \<open>NaN\<close> is \<open>nan\<close>.
\<close>

type_synonym bytes = string
type_synonym key = string

datatype pyfloat = Finite int int | Infinity bool | NaN

datatype pynum = NInt int | NFloat pyfloat

datatype pyobj = PNone | PInt int | PStr string | PList "pyobj list" | PTask pynum string

fun truthy :: "pyobj \<Rightarrow> bool" where
  "truthy PNone = False"
| "truthy (PInt n) = (n \<noteq> 0)"
| "truthy (PStr s) = (s \<noteq> [])"
| "truthy (PList xs) = (xs \<noteq> [])"
| "truthy (PTask p n) = True"

text \<open>The attribute access \<open>obj.priority\<close>; \<open>None\<close> where Python raises AttributeError.\<close>

fun priority :: "pyobj \<Rightarrow> pynum option" where
  "priority (PTask p n) = Some p"
| "priority _ = None"

text \<open>Python's unary minus on a number.\<close>

fun py_neg :: "pynum \<Rightarrow> pynum" where
  "py_neg (NInt n) = NInt (- n)"
| "py_neg (NFloat (Finite m e)) = NFloat (Finite (- m) e)"
| "py_neg (NFloat (Infinity b)) = NFloat (Infinity (\<not> b))"
| "py_neg (NFloat NaN) = NFloat NaN"

datatype error = TypeError | ValueError | AttributeError | ResponseError | DecodeError

section \<open>The backing store\<close>

text \<open>
  Modelled from the spec: the backing store is the external Redis server, which is not
  part of the sources. Its primitives follow the table of section 6 of the specification
  and the documented behaviour of the Redis commands that the source issues: a key holds a
  list, a sorted set or a set; a command on a key of another type is answered with an error
  (\<open>ResponseError\<close>) and changes nothing; a collection that becomes empty is removed.
  A sorted set is kept as the list of its (score, member) pairs in the store's order, by
  score and then by member bytes; a member occurs once. The field \<open>blocked\<close> counts the
  seconds that blocking pops have spent waiting on an empty list, with no other client
  writing to the store.

  A score is an IEEE-754 double. \<open>double\<close> holds the values a score can take: the
  rationals stand for the finite doubles, with \<open>-inf\<close> below and \<open>inf\<close> above them.
\<close>

datatype double = MInf | Fin rat | PInf

instantiation double :: linorder
begin

definition less_eq_double :: "double \<Rightarrow> double \<Rightarrow> bool" where
  "less_eq_double a b =
     (case a of
        MInf \<Rightarrow> True
      | Fin x \<Rightarrow> (case b of MInf \<Rightarrow> False | Fin y \<Rightarrow> x \<le> y | PInf \<Rightarrow> True)
      | PInf \<Rightarrow> (case b of MInf \<Rightarrow> False | Fin y \<Rightarrow> False | PInf \<Rightarrow> True))"

definition less_double :: "double \<Rightarrow> double \<Rightarrow> bool" where
  "less_double a b = (a \<le> b \<and> \<not> b \<le> a)"

instance
  by standard (auto simp: less_eq_double_def less_double_def split: double.splits)

end

text \<open>
  The score argument of \<open>ZADD\<close> reaches the store as the text of the Python number and is
  read as a double. An integer is rounded to the nearest double, ties to the even
  significand (\<open>round_to_double\<close>; integers up to \<open>2 ^ 53\<close> in magnitude are doubles
  already), and is refused when the result is beyond the range of doubles. A float reaches
  the store as its \<open>repr\<close>, which reads back as the same double; \<open>nan\<close> is refused.
  \<open>nbits\<close> is the number of binary digits of a positive integer.
\<close>

function nbits :: "int \<Rightarrow> int" where
  "nbits n = (if n \<le> 0 then 0 else 1 + nbits (n div 2))"
  by pat_completeness auto
termination
  by (relation "measure nat") auto

declare nbits.simps [simp del]

definition round_to_double :: "int \<Rightarrow> int" where
  "round_to_double n =
     (let a = \<bar>n\<bar> in
      if a \<le> 9007199254740992 then n
      else
        (let e = nat (nbits a - 53);
             q = a div 2 ^ e;
             r = a mod 2 ^ e;
             h = 2 ^ (e - 1);
             q' = (if r > h \<or> (r = h \<and> odd q) then q + 1 else q)
         in sgn n * (q' * 2 ^ e)))"

definition pow2 :: "int \<Rightarrow> rat" where
  "pow2 e = (if 0 \<le> e then 2 ^ nat e else 1 / 2 ^ nat (- e))"

definition to_double :: "pynum \<Rightarrow> double option" where
  "to_double x =
     (case x of
        NInt n \<Rightarrow>
          (let r = round_to_double n in
           if nbits \<bar>r\<bar> > 1024 then None else Some (Fin (of_int r)))
      | NFloat (Finite m e) \<Rightarrow> Some (Fin (of_int m * pow2 e))
      | NFloat (Infinity b) \<Rightarrow> Some (if b then PInf else MInf)
      | NFloat NaN \<Rightarrow> None)"

datatype rval = RList "bytes list" | RZSet "(double \<times> bytes) list" | RSet "bytes set"

record server =
  store :: "key \<Rightarrow> rval option"
  blocked :: int

text \<open>
  Every call returns the value or the raised error, and the store as the call left it:
  a call that raises after a write keeps the write.
\<close>

type_synonym 'a result = "(error + 'a) \<times> server"

definition bind :: "'a result \<Rightarrow> ('a \<Rightarrow> server \<Rightarrow> 'b result) \<Rightarrow> 'b result" where
  "bind r f = (case r of (Inl e, srv) \<Rightarrow> (Inl e, srv) | (Inr a, srv) \<Rightarrow> f a srv)"

definition put_list :: "key \<Rightarrow> bytes list \<Rightarrow> server \<Rightarrow> server" where
  "put_list k xs srv =
     srv\<lparr>store := (store srv)(k := (if xs = [] then None else Some (RList xs)))\<rparr>"

definition put_zset :: "key \<Rightarrow> (double \<times> bytes) list \<Rightarrow> server \<Rightarrow> server" where
  "put_zset k zs srv =
     srv\<lparr>store := (store srv)(k := (if zs = [] then None else Some (RZSet zs)))\<rparr>"

definition lpush :: "key \<Rightarrow> bytes \<Rightarrow> server \<Rightarrow> nat result" where
  "lpush k v srv =
     (case store srv k of
        None \<Rightarrow> (Inr 1, put_list k [v] srv)
      | Some (RList xs) \<Rightarrow> (Inr (Suc (length xs)), put_list k (v # xs) srv)
      | Some (RZSet zs) \<Rightarrow> (Inl ResponseError, srv)
      | Some (RSet ms) \<Rightarrow> (Inl ResponseError, srv))"

definition rpop :: "key \<Rightarrow> server \<Rightarrow> bytes option result" where
  "rpop k srv =
     (case store srv k of
        None \<Rightarrow> (Inr None, srv)
      | Some (RList xs) \<Rightarrow>
          (if xs = [] then (Inr None, srv)
           else (Inr (Some (last xs)), put_list k (butlast xs) srv))
      | Some (RZSet zs) \<Rightarrow> (Inl ResponseError, srv)
      | Some (RSet ms) \<Rightarrow> (Inl ResponseError, srv))"

definition lpop :: "key \<Rightarrow> server \<Rightarrow> bytes option result" where
  "lpop k srv =
     (case store srv k of
        None \<Rightarrow> (Inr None, srv)
      | Some (RList xs) \<Rightarrow>
          (case xs of [] \<Rightarrow> (Inr None, srv)
           | x # rest \<Rightarrow> (Inr (Some x), put_list k rest srv))
      | Some (RZSet zs) \<Rightarrow> (Inl ResponseError, srv)
      | Some (RSet ms) \<Rightarrow> (Inl ResponseError, srv))"

text \<open>
  The blocking pops answer with the pair (key, value), or with nothing once the timeout
  has passed on an empty list.
\<close>

definition brpop :: "key \<Rightarrow> int \<Rightarrow> server \<Rightarrow> (key \<times> bytes) option result" where
  "brpop k timeout srv =
     (case store srv k of
        None \<Rightarrow> (Inr None, srv\<lparr>blocked := blocked srv + timeout\<rparr>)
      | Some (RList xs) \<Rightarrow>
          (if xs = [] then (Inr None, srv\<lparr>blocked := blocked srv + timeout\<rparr>)
           else (Inr (Some (k, last xs)), put_list k (butlast xs) srv))
      | Some (RZSet zs) \<Rightarrow> (Inl ResponseError, srv)
      | Some (RSet ms) \<Rightarrow> (Inl ResponseError, srv))"

definition blpop :: "key \<Rightarrow> int \<Rightarrow> server \<Rightarrow> (key \<times> bytes) option result" where
  "blpop k timeout srv =
     (case store srv k of
        None \<Rightarrow> (Inr None, srv\<lparr>blocked := blocked srv + timeout\<rparr>)
      | Some (RList xs) \<Rightarrow>
          (case xs of [] \<Rightarrow> (Inr None, srv\<lparr>blocked := blocked srv + timeout\<rparr>)
           | x # rest \<Rightarrow> (Inr (Some (k, x)), put_list k rest srv))
      | Some (RZSet zs) \<Rightarrow> (Inl ResponseError, srv)
      | Some (RSet ms) \<Rightarrow> (Inl ResponseError, srv))"

definition llen :: "key \<Rightarrow> server \<Rightarrow> nat result" where
  "llen k srv =
     (case store srv k of
        None \<Rightarrow> (Inr 0, srv)
      | Some (RList xs) \<Rightarrow> (Inr (length xs), srv)
      | Some (RZSet zs) \<Rightarrow> (Inl ResponseError, srv)
      | Some (RSet ms) \<Rightarrow> (Inl ResponseError, srv))"

text \<open>
  \<open>ZADD key score member\<close>: a score that is not a valid double is an error; a member
  already present is moved to its new score.
\<close>

definition zadd :: "key \<Rightarrow> pynum \<Rightarrow> bytes \<Rightarrow> server \<Rightarrow> nat result" where
  "zadd k score member srv =
     (case to_double score of
        None \<Rightarrow> (Inl ResponseError, srv)
      | Some d \<Rightarrow>
          (case store srv k of
             None \<Rightarrow> (Inr 1, put_zset k [(d, member)] srv)
           | Some (RZSet zs) \<Rightarrow>
               (Inr (if member \<in> snd ` set zs then 0 else 1),
                put_zset k (insort (d, member) (filter (\<lambda>z. snd z \<noteq> member) zs)) srv)
           | Some (RList xs) \<Rightarrow> (Inl ResponseError, srv)
           | Some (RSet ms) \<Rightarrow> (Inl ResponseError, srv)))"

text \<open>\<open>ZRANGE key 0 0\<close> and \<open>ZREMRANGEBYRANK key 0 0\<close>, the two ranges the source asks for.\<close>

definition zrange_0_0 :: "key \<Rightarrow> server \<Rightarrow> bytes list result" where
  "zrange_0_0 k srv =
     (case store srv k of
        None \<Rightarrow> (Inr [], srv)
      | Some (RZSet zs) \<Rightarrow> (Inr (map snd (take 1 zs)), srv)
      | Some (RList xs) \<Rightarrow> (Inl ResponseError, srv)
      | Some (RSet ms) \<Rightarrow> (Inl ResponseError, srv))"

definition zremrangebyrank_0_0 :: "key \<Rightarrow> server \<Rightarrow> nat result" where
  "zremrangebyrank_0_0 k srv =
     (case store srv k of
        None \<Rightarrow> (Inr 0, srv)
      | Some (RZSet zs) \<Rightarrow> (Inr (length (take 1 zs)), put_zset k (drop 1 zs) srv)
      | Some (RList xs) \<Rightarrow> (Inl ResponseError, srv)
      | Some (RSet ms) \<Rightarrow> (Inl ResponseError, srv))"

definition zcard :: "key \<Rightarrow> server \<Rightarrow> nat result" where
  "zcard k srv =
     (case store srv k of
        None \<Rightarrow> (Inr 0, srv)
      | Some (RZSet zs) \<Rightarrow> (Inr (length zs), srv)
      | Some (RList xs) \<Rightarrow> (Inl ResponseError, srv)
      | Some (RSet ms) \<Rightarrow> (Inl ResponseError, srv))"

text \<open>
  A \<open>MULTI\<close>/\<open>EXEC\<close> pipeline of two commands: both run, one after the other with no
  other client in between, and \<open>execute\<close> raises the first error among their answers.
\<close>

definition pipeline_execute ::
  "(server \<Rightarrow> 'a result) \<Rightarrow> (server \<Rightarrow> 'b result) \<Rightarrow> server \<Rightarrow> ('a \<times> 'b) result" where
  "pipeline_execute c1 c2 srv =
     (case c1 srv of (r1, s1) \<Rightarrow>
        (case c2 s1 of (r2, s2) \<Rightarrow>
           (case r1 of Inl e \<Rightarrow> (Inl e, s2)
            | Inr a \<Rightarrow> (case r2 of Inl e \<Rightarrow> (Inl e, s2) | Inr b \<Rightarrow> (Inr (a, b), s2)))))"

text \<open>\<open>SADD key member\<close> answers with the number of members added.\<close>

definition sadd :: "key \<Rightarrow> bytes \<Rightarrow> server \<Rightarrow> nat result" where
  "sadd k member srv =
     (case store srv k of
        None \<Rightarrow> (Inr 1, srv\<lparr>store := (store srv)(k \<mapsto> RSet {member})\<rparr>)
      | Some (RSet ms) \<Rightarrow>
          (Inr (if member \<in> ms then 0 else 1),
           srv\<lparr>store := (store srv)(k \<mapsto> RSet (insert member ms))\<rparr>)
      | Some (RList xs) \<Rightarrow> (Inl ResponseError, srv)
      | Some (RZSet zs) \<Rightarrow> (Inl ResponseError, srv))"

definition scard :: "key \<Rightarrow> server \<Rightarrow> nat result" where
  "scard k srv =
     (case store srv k of
        None \<Rightarrow> (Inr 0, srv)
      | Some (RSet ms) \<Rightarrow> (Inr (card ms), srv)
      | Some (RList xs) \<Rightarrow> (Inl ResponseError, srv)
      | Some (RZSet zs) \<Rightarrow> (Inl ResponseError, srv))"

text \<open>\<open>DEL key\<close> removes a key of any type and answers with the number of keys removed.\<close>

definition delete :: "key \<Rightarrow> server \<Rightarrow> nat result" where
  "delete k srv =
     (Inr (case store srv k of None \<Rightarrow> 0 | Some v \<Rightarrow> 1), srv\<lparr>store := (store srv)(k := None)\<rparr>)"

section \<open>rqueues.py\<close>

text \<open>
  A serializer is any object; \<open>hasattr\<close> asks whether it has \<open>loads\<close> and \<open>dumps\<close>.
  Both functions belong to the host's codec and may raise.
\<close>

record serializer_obj =
  loads_attr :: "(bytes \<Rightarrow> error + pyobj) option"
  dumps_attr :: "(pyobj \<Rightarrow> error + bytes) option"

datatype queue_cls = FifoQueue | LifoQueue | PriorityQueue

record queue_obj =
  q_cls :: queue_cls
  q_key :: key
  q_serializer :: serializer_obj

text \<open>
  \<open>Base.__init__\<close>. The module \<open>picklecompat\<close>, the default serializer, is not among the
  sources and is a parameter. The client handle \<open>server\<close> is the store that every call
  is given.
\<close>

definition Base_init ::
  "serializer_obj \<Rightarrow> queue_cls \<Rightarrow> key \<Rightarrow> serializer_obj option \<Rightarrow> error + queue_obj" where
  "Base_init picklecompat c k serializer =
     (let ser = (case serializer of None \<Rightarrow> picklecompat | Some s \<Rightarrow> s) in
      if loads_attr ser = None then Inl TypeError
      else if dumps_attr ser = None then Inl TypeError
      else Inr \<lparr>q_cls = c, q_key = k, q_serializer = ser\<rparr>)"

definition Base_serialize :: "queue_obj \<Rightarrow> pyobj \<Rightarrow> error + bytes" where
  "Base_serialize q obj =
     (case dumps_attr (q_serializer q) of None \<Rightarrow> Inl AttributeError | Some f \<Rightarrow> f obj)"

definition Base_unserialize :: "queue_obj \<Rightarrow> bytes \<Rightarrow> error + pyobj" where
  "Base_unserialize q data =
     (case loads_attr (q_serializer q) of None \<Rightarrow> Inl AttributeError | Some f \<Rightarrow> f data)"

definition Base_clear :: "queue_obj \<Rightarrow> server \<Rightarrow> pyobj result" where
  "Base_clear q srv = bind (delete (q_key q) srv) (\<lambda>n s. (Inr PNone, s))"

text \<open>\<open>if data: return self._unserialize(data)\<close>, on the answer of a list pop.\<close>

definition unserialize_if :: "queue_obj \<Rightarrow> bytes option \<Rightarrow> server \<Rightarrow> pyobj result" where
  "unserialize_if q data srv =
     (case data of
        None \<Rightarrow> (Inr PNone, srv)
      | Some b \<Rightarrow>
          (if b \<noteq> [] then
             (case Base_unserialize q b of Inl e \<Rightarrow> (Inl e, srv) | Inr v \<Rightarrow> (Inr v, srv))
           else (Inr PNone, srv)))"

definition FifoQueue_len :: "queue_obj \<Rightarrow> server \<Rightarrow> nat result" where
  "FifoQueue_len q srv = llen (q_key q) srv"

definition FifoQueue_push :: "queue_obj \<Rightarrow> pyobj \<Rightarrow> server \<Rightarrow> pyobj result" where
  "FifoQueue_push q obj srv =
     (case Base_serialize q obj of
        Inl e \<Rightarrow> (Inl e, srv)
      | Inr data \<Rightarrow> bind (lpush (q_key q) data srv) (\<lambda>n s. (Inr PNone, s)))"

definition FifoQueue_pop :: "queue_obj \<Rightarrow> int \<Rightarrow> server \<Rightarrow> pyobj result" where
  "FifoQueue_pop q timeout srv =
     (if timeout > 0 then
        bind (brpop (q_key q) timeout srv) (\<lambda>data s. unserialize_if q (map_option snd data) s)
      else
        bind (rpop (q_key q) srv) (\<lambda>data s. unserialize_if q data s))"

definition PriorityQueue_len :: "queue_obj \<Rightarrow> server \<Rightarrow> nat result" where
  "PriorityQueue_len q srv = zcard (q_key q) srv"

definition PriorityQueue_push :: "queue_obj \<Rightarrow> pyobj \<Rightarrow> server \<Rightarrow> pyobj result" where
  "PriorityQueue_push q obj srv =
     (case Base_serialize q obj of
        Inl e \<Rightarrow> (Inl e, srv)
      | Inr data \<Rightarrow>
          (case priority obj of
             None \<Rightarrow> (Inl AttributeError, srv)
           | Some p \<Rightarrow> bind (zadd (q_key q) (py_neg p) data srv) (\<lambda>n s. (Inr PNone, s))))"

definition PriorityQueue_pop :: "queue_obj \<Rightarrow> int \<Rightarrow> server \<Rightarrow> pyobj result" where
  "PriorityQueue_pop q timeout srv =
     bind (pipeline_execute (zrange_0_0 (q_key q)) (zremrangebyrank_0_0 (q_key q)) srv)
       (\<lambda>(results, count) s.
          (case results of
             [] \<Rightarrow> (Inr PNone, s)
           | b # rest \<Rightarrow>
               (case Base_unserialize q b of Inl e \<Rightarrow> (Inl e, s) | Inr v \<Rightarrow> (Inr v, s))))"

definition LifoQueue_len :: "queue_obj \<Rightarrow> server \<Rightarrow> nat result" where
  "LifoQueue_len q srv = llen (q_key q) srv"

definition LifoQueue_push :: "queue_obj \<Rightarrow> pyobj \<Rightarrow> server \<Rightarrow> pyobj result" where
  "LifoQueue_push q obj srv =
     (case Base_serialize q obj of
        Inl e \<Rightarrow> (Inl e, srv)
      | Inr data \<Rightarrow> bind (lpush (q_key q) data srv) (\<lambda>n s. (Inr PNone, s)))"

definition LifoQueue_pop :: "queue_obj \<Rightarrow> int \<Rightarrow> server \<Rightarrow> pyobj result" where
  "LifoQueue_pop q timeout srv =
     (if timeout > 0 then
        bind (blpop (q_key q) timeout srv) (\<lambda>data s. unserialize_if q (map_option snd data) s)
      else
        bind (lpop (q_key q) srv) (\<lambda>data s. unserialize_if q data s))"

text \<open>Method calls on a queue object go to the class it was built from.\<close>

definition len :: "queue_obj \<Rightarrow> server \<Rightarrow> nat result" where
  "len q srv =
     (case q_cls q of
        FifoQueue \<Rightarrow> FifoQueue_len q srv
      | LifoQueue \<Rightarrow> LifoQueue_len q srv
      | PriorityQueue \<Rightarrow> PriorityQueue_len q srv)"

definition push :: "queue_obj \<Rightarrow> pyobj \<Rightarrow> server \<Rightarrow> pyobj result" where
  "push q obj srv =
     (case q_cls q of
        FifoQueue \<Rightarrow> FifoQueue_push q obj srv
      | LifoQueue \<Rightarrow> LifoQueue_push q obj srv
      | PriorityQueue \<Rightarrow> PriorityQueue_push q obj srv)"

definition pop :: "queue_obj \<Rightarrow> int \<Rightarrow> server \<Rightarrow> pyobj result" where
  "pop q timeout srv =
     (case q_cls q of
        FifoQueue \<Rightarrow> FifoQueue_pop q timeout srv
      | LifoQueue \<Rightarrow> LifoQueue_pop q timeout srv
      | PriorityQueue \<Rightarrow> PriorityQueue_pop q timeout srv)"

section \<open>dupefilter.py\<close>

record dupefilter =
  df_key :: key
  df_debug :: bool
  df_logdupes :: bool

definition RFPDupeFilter_init :: "key \<Rightarrow> bool \<Rightarrow> dupefilter" where
  "RFPDupeFilter_init k debug = \<lparr>df_key = k, df_debug = debug, df_logdupes = True\<rparr>"

text \<open>
  \<open>obj_seen\<close>. The function \<open>utils.obj_fingerprint\<close> is not among the sources and is the
  parameter \<open>fp\<close>.
\<close>

definition RFPDupeFilter_obj_seen ::
  "(pyobj \<Rightarrow> bytes) \<Rightarrow> dupefilter \<Rightarrow> pyobj \<Rightarrow> server \<Rightarrow> bool result" where
  "RFPDupeFilter_obj_seen fp d obj srv =
     bind (sadd (df_key d) (fp obj) srv) (\<lambda>added s. (Inr (added = 0), s))"

definition RFPDupeFilter_len :: "dupefilter \<Rightarrow> server \<Rightarrow> nat result" where
  "RFPDupeFilter_len d srv = scard (df_key d) srv"

definition RFPDupeFilter_clear :: "dupefilter \<Rightarrow> server \<Rightarrow> pyobj result" where
  "RFPDupeFilter_clear d srv = bind (delete (df_key d) srv) (\<lambda>n s. (Inr PNone, s))"

definition RFPDupeFilter_close :: "dupefilter \<Rightarrow> server \<Rightarrow> pyobj result" where
  "RFPDupeFilter_close d srv = RFPDupeFilter_clear d srv"


section \<open>scheduler.py\<close>

text \<open>
  \<open>utils.load_object\<close> is not among the sources and is a parameter: it resolves a dotted
  path to a class of the package or raises. A queue class is called with the keywords
  \<open>server\<close>, \<open>key\<close>, \<open>serializer\<close>, the filter class with \<open>server\<close>, \<open>key\<close>, \<open>debug\<close>; a class
  called with a keyword it does not take raises TypeError.
\<close>

datatype py_class = QueueClass queue_cls | DupeFilterClass

subsection \<open>Scheduler\<close>

record scheduler =
  persist :: bool
  flush_on_start :: bool
  queue_key :: key
  queue_cls :: string
  idle_before_close :: int
  serializer :: "serializer_obj option"
  queue :: "queue_obj option"

definition Scheduler_init ::
  "bool \<Rightarrow> bool \<Rightarrow> key \<Rightarrow> string \<Rightarrow> int \<Rightarrow> serializer_obj option \<Rightarrow> error + scheduler" where
  "Scheduler_init p f k c idle ser =
     (if idle < 0 then Inl TypeError
      else Inr \<lparr>persist = p, flush_on_start = f, queue_key = k, queue_cls = c,
                idle_before_close = idle, serializer = ser, queue = None\<rparr>)"

text \<open>The \<open>try\<close> block of the three \<open>open\<close> methods that builds a queue.\<close>

definition make_queue ::
  "(string \<Rightarrow> error + py_class) \<Rightarrow> serializer_obj \<Rightarrow> string \<Rightarrow> key \<Rightarrow> serializer_obj option
     \<Rightarrow> error + queue_obj" where
  "make_queue load_object picklecompat path k ser =
     (case load_object path of
        Inl e \<Rightarrow> Inl (if e = TypeError then ValueError else e)
      | Inr DupeFilterClass \<Rightarrow> Inl ValueError
      | Inr (QueueClass c) \<Rightarrow>
          (case Base_init picklecompat c k ser of
             Inl e \<Rightarrow> Inl (if e = TypeError then ValueError else e)
           | Inr q \<Rightarrow> Inr q))"

definition Scheduler_flush :: "'a scheduler_scheme \<Rightarrow> server \<Rightarrow> pyobj result" where
  "Scheduler_flush sch srv =
     (case queue sch of None \<Rightarrow> (Inl AttributeError, srv) | Some q \<Rightarrow> Base_clear q srv)"

definition Scheduler_open ::
  "(string \<Rightarrow> error + py_class) \<Rightarrow> serializer_obj \<Rightarrow> scheduler \<Rightarrow> server
     \<Rightarrow> scheduler \<times> pyobj result" where
  "Scheduler_open load_object picklecompat sch srv =
     (case make_queue load_object picklecompat (queue_cls sch) (queue_key sch) (serializer sch) of
        Inl e \<Rightarrow> (sch, (Inl e, srv))
      | Inr q \<Rightarrow>
          (let sch' = sch\<lparr>queue := Some q\<rparr> in
           (sch',
            bind (if flush_on_start sch' then Scheduler_flush sch' srv else (Inr PNone, srv))
              (\<lambda>u s. bind (len q s)
                 (\<lambda>n s'. if n \<noteq> 0 then bind (len q s') (\<lambda>m s''. (Inr PNone, s''))
                          else (Inr PNone, s'))))))"

definition Scheduler_close :: "scheduler \<Rightarrow> server \<Rightarrow> pyobj result" where
  "Scheduler_close sch srv =
     (if \<not> persist sch then Scheduler_flush sch srv else (Inr PNone, srv))"

definition Scheduler_enqueue :: "scheduler \<Rightarrow> pyobj \<Rightarrow> server \<Rightarrow> bool result" where
  "Scheduler_enqueue sch obj srv =
     (case queue sch of
        None \<Rightarrow> (Inl AttributeError, srv)
      | Some q \<Rightarrow> bind (push q obj srv) (\<lambda>u s. (Inr True, s)))"


subsection \<open>PipeScheduler\<close>

record pipe_scheduler =
  p_persist :: bool
  p_flush_on_start :: bool
  queue_in_key :: key
  queue_in_cls :: string
  queue_out_key :: key
  queue_out_cls :: string
  p_idle_before_close :: int
  p_serializer :: "serializer_obj option"
  queue_in :: "queue_obj option"
  queue_out :: "queue_obj option"

definition PipeScheduler_init ::
  "bool \<Rightarrow> bool \<Rightarrow> key \<Rightarrow> string \<Rightarrow> key \<Rightarrow> string \<Rightarrow> int \<Rightarrow> serializer_obj option
     \<Rightarrow> error + pipe_scheduler" where
  "PipeScheduler_init p f ki ci ko co idle ser =
     (if idle < 0 then Inl TypeError
      else Inr \<lparr>p_persist = p, p_flush_on_start = f, queue_in_key = ki, queue_in_cls = ci,
                queue_out_key = ko, queue_out_cls = co, p_idle_before_close = idle,
                p_serializer = ser, queue_in = None, queue_out = None\<rparr>)"

definition PipeScheduler_flush :: "pipe_scheduler \<Rightarrow> server \<Rightarrow> pyobj result" where
  "PipeScheduler_flush sch srv =
     (case queue_in sch of
        None \<Rightarrow> (Inl AttributeError, srv)
      | Some qi \<Rightarrow>
          bind (Base_clear qi srv)
            (\<lambda>u s. case queue_out sch of
                      None \<Rightarrow> (Inl AttributeError, s)
                    | Some qo \<Rightarrow> Base_clear qo s))"

definition PipeScheduler_open ::
  "(string \<Rightarrow> error + py_class) \<Rightarrow> serializer_obj \<Rightarrow> pipe_scheduler \<Rightarrow> server
     \<Rightarrow> pipe_scheduler \<times> pyobj result" where
  "PipeScheduler_open load_object picklecompat sch srv =
     (case make_queue load_object picklecompat (queue_in_cls sch) (queue_in_key sch)
             (p_serializer sch) of
        Inl e \<Rightarrow> (sch, (Inl e, srv))
      | Inr qi \<Rightarrow>
          (let sch1 = sch\<lparr>queue_in := Some qi\<rparr> in
           case make_queue load_object picklecompat (queue_out_cls sch1) (queue_out_key sch1)
                  (p_serializer sch1) of
             Inl e \<Rightarrow> (sch1, (Inl e, srv))
           | Inr qo \<Rightarrow>
               (let sch2 = sch1\<lparr>queue_out := Some qo\<rparr> in
                (sch2,
                 bind (if p_flush_on_start sch2 then PipeScheduler_flush sch2 srv
                       else (Inr PNone, srv))
                   (\<lambda>u s. bind (len qi s)
                      (\<lambda>n s1.
                         bind (if n \<noteq> 0 then (Inr True, s1)
                               else bind (len qo s1) (\<lambda>m s2. (Inr (m \<noteq> 0), s2)))
                           (\<lambda>resuming s2.
                              if resuming then
                                bind (len qi s2)
                                  (\<lambda>a s3. bind (len qo s3) (\<lambda>b s4. (Inr PNone, s4)))
                              else (Inr PNone, s2))))))))"

definition PipeScheduler_close :: "pipe_scheduler \<Rightarrow> server \<Rightarrow> pyobj result" where
  "PipeScheduler_close sch srv =
     (if \<not> p_persist sch then PipeScheduler_flush sch srv else (Inr PNone, srv))"

definition PipeScheduler_enqueue ::
  "pipe_scheduler \<Rightarrow> pyobj \<Rightarrow> string \<Rightarrow> server \<Rightarrow> bool result" where
  "PipeScheduler_enqueue sch obj queue_name srv =
     bind
       (if queue_name = ''in'' then
          (case queue_in sch of
             None \<Rightarrow> (Inl AttributeError, srv)
           | Some qi \<Rightarrow> push qi obj srv)
        else if queue_name = ''out'' then
          (case queue_out sch of
             None \<Rightarrow> (Inl AttributeError, srv)
           | Some qo \<Rightarrow> push qo obj srv)
        else (Inr PNone, srv))
       (\<lambda>u s. (Inr True, s))"

definition PipeScheduler_dequeue :: "pipe_scheduler \<Rightarrow> string \<Rightarrow> server \<Rightarrow> pyobj result" where
  "PipeScheduler_dequeue sch queue_name srv =
     (let block_pop_timeout = p_idle_before_close sch in
      bind
        (if queue_name = ''out'' then
           (case queue_out sch of
              None \<Rightarrow> (Inl AttributeError, srv)
            | Some qo \<Rightarrow> pop qo block_pop_timeout srv)
         else if queue_name = ''in'' then
           (case queue_in sch of
              None \<Rightarrow> (Inl AttributeError, srv)
            | Some qi \<Rightarrow> pop qi block_pop_timeout srv)
         else (Inr PNone, srv))
        (\<lambda>obj s. if truthy obj then (Inr obj, s) else (Inr PNone, s)))"

definition PipeScheduler_pipe :: "pipe_scheduler \<Rightarrow> server \<Rightarrow> bool result" where
  "PipeScheduler_pipe sch srv =
     bind (PipeScheduler_dequeue sch ''in'' srv)
       (\<lambda>obj s. if truthy obj then PipeScheduler_enqueue sch obj ''out'' s
                 else (Inr False, s))"

subsection \<open>DupeFilterScheduler\<close>

record dupefilter_scheduler = scheduler +
  dupefilter_key :: key
  dupefilter_cls :: string
  dupefilter_debug :: bool
  df :: "dupefilter option"

definition DupeFilterScheduler_init ::
  "bool \<Rightarrow> bool \<Rightarrow> key \<Rightarrow> string \<Rightarrow> key \<Rightarrow> string \<Rightarrow> bool \<Rightarrow> int \<Rightarrow> serializer_obj option
     \<Rightarrow> error + dupefilter_scheduler" where
  "DupeFilterScheduler_init p f k c dk dc dd idle ser =
     (case Scheduler_init p f k c idle ser of
        Inl e \<Rightarrow> Inl e
      | Inr sch \<Rightarrow>
          Inr (scheduler.extend sch
                 (dupefilter_scheduler.fields dk dc dd None)))"

definition make_dupefilter ::
  "(string \<Rightarrow> error + py_class) \<Rightarrow> string \<Rightarrow> key \<Rightarrow> bool \<Rightarrow> error + dupefilter" where
  "make_dupefilter load_object path k debug =
     (case load_object path of
        Inl e \<Rightarrow> Inl (if e = TypeError then ValueError else e)
      | Inr (QueueClass c) \<Rightarrow> Inl ValueError
      | Inr DupeFilterClass \<Rightarrow> Inr (RFPDupeFilter_init k debug))"

definition DupeFilterScheduler_flush :: "dupefilter_scheduler \<Rightarrow> server \<Rightarrow> pyobj result" where
  "DupeFilterScheduler_flush sch srv =
     (case df sch of
        None \<Rightarrow> (Inl AttributeError, srv)
      | Some d \<Rightarrow>
          bind (RFPDupeFilter_clear d srv)
            (\<lambda>u s. case queue sch of
                      None \<Rightarrow> (Inl AttributeError, s)
                    | Some q \<Rightarrow> Base_clear q s))"

definition DupeFilterScheduler_open ::
  "(string \<Rightarrow> error + py_class) \<Rightarrow> serializer_obj \<Rightarrow> dupefilter_scheduler \<Rightarrow> server
     \<Rightarrow> dupefilter_scheduler \<times> pyobj result" where
  "DupeFilterScheduler_open load_object picklecompat sch srv =
     (case make_queue load_object picklecompat (queue_cls sch) (queue_key sch) (serializer sch) of
        Inl e \<Rightarrow> (sch, (Inl e, srv))
      | Inr q \<Rightarrow>
          (let sch1 = sch\<lparr>queue := Some q\<rparr> in
           case make_dupefilter load_object (dupefilter_cls sch1) (dupefilter_key sch1)
                  (dupefilter_debug sch1) of
             Inl e \<Rightarrow> (sch1, (Inl e, srv))
           | Inr d \<Rightarrow>
               (let sch2 = sch1\<lparr>df := Some d\<rparr> in
                (sch2,
                 bind (if flush_on_start sch2 then DupeFilterScheduler_flush sch2 srv
                       else (Inr PNone, srv))
                   (\<lambda>u s. bind (RFPDupeFilter_len d s)
                      (\<lambda>n s1.
                         bind (if n \<noteq> 0 then (Inr True, s1)
                               else bind (len q s1) (\<lambda>m s2. (Inr (m \<noteq> 0), s2)))
                           (\<lambda>resuming s2.
                              if resuming then
                                bind (RFPDupeFilter_len d s2)
                                  (\<lambda>a s3. bind (len q s3) (\<lambda>b s4. (Inr PNone, s4)))
                              else (Inr PNone, s2))))))))"

text \<open>\<open>close\<close> is inherited from Scheduler and calls the overriding \<open>flush\<close>.\<close>

definition DupeFilterScheduler_close :: "dupefilter_scheduler \<Rightarrow> server \<Rightarrow> pyobj result" where
  "DupeFilterScheduler_close sch srv =
     (if \<not> persist sch then DupeFilterScheduler_flush sch srv else (Inr PNone, srv))"


definition DupeFilterScheduler_dequeue :: "dupefilter_scheduler \<Rightarrow> server \<Rightarrow> pyobj result" where
  "DupeFilterScheduler_dequeue sch srv =
     (let block_pop_timeout = idle_before_close sch in
      case queue sch of
        None \<Rightarrow> (Inl AttributeError, srv)
      | Some q \<Rightarrow>
          bind (pop q block_pop_timeout srv)
            (\<lambda>obj s. if truthy obj then (Inr obj, s) else (Inr PNone, s)))"

section \<open>Observations and call sequences\<close>

text \<open>
  The encoded items that a queue object holds in the store, in the order in which \<open>pop\<close>
  hands them out: a list is popped from its right end by FifoQueue and from its left end by
  LifoQueue, a sorted set from its lowest score by PriorityQueue. \<open>None\<close> where the key
  holds a value that the class cannot use.
\<close>

definition pending :: "queue_obj \<Rightarrow> server \<Rightarrow> bytes list option" where
  "pending q srv =
     (case store srv (q_key q) of
        None \<Rightarrow> Some []
      | Some (RList xs) \<Rightarrow>
          (case q_cls q of
             FifoQueue \<Rightarrow> Some (rev xs)
           | LifoQueue \<Rightarrow> Some xs
           | PriorityQueue \<Rightarrow> None)
      | Some (RZSet zs) \<Rightarrow>
          (case q_cls q of
             PriorityQueue \<Rightarrow> Some (map snd zs)
           | FifoQueue \<Rightarrow> None
           | LifoQueue \<Rightarrow> None)
      | Some (RSet ms) \<Rightarrow> None)"

text \<open>The sorted set under a key; an absent key is the empty sorted set.\<close>

definition zset_of :: "key \<Rightarrow> server \<Rightarrow> (double \<times> bytes) list option" where
  "zset_of k srv =
     (case store srv k of
        None \<Rightarrow> Some []
      | Some (RZSet zs) \<Rightarrow> Some zs
      | Some (RList xs) \<Rightarrow> None
      | Some (RSet ms) \<Rightarrow> None)"

text \<open>The fingerprints recorded under a key; an absent key is the empty set.\<close>

definition members :: "key \<Rightarrow> server \<Rightarrow> bytes set option" where
  "members k srv =
     (case store srv k of
        None \<Rightarrow> Some {}
      | Some (RSet ms) \<Rightarrow> Some ms
      | Some (RList xs) \<Rightarrow> None
      | Some (RZSet zs) \<Rightarrow> None)"

text \<open>A task survives the queue's codec: it is encoded, and its encoding decodes to it.\<close>

definition roundtrips :: "queue_obj \<Rightarrow> pyobj \<Rightarrow> bool" where
  "roundtrips q x =
     (case Base_serialize q x of Inl e \<Rightarrow> False | Inr b \<Rightarrow> Base_unserialize q b = Inr x)"

definition nonempty_data :: "queue_obj \<Rightarrow> pyobj \<Rightarrow> bool" where
  "nonempty_data q x = (case Base_serialize q x of Inl e \<Rightarrow> False | Inr b \<Rightarrow> b \<noteq> [])"

text \<open>The bytes under which a task is stored (empty where the codec raises).\<close>

definition data_of :: "queue_obj \<Rightarrow> pyobj \<Rightarrow> bytes" where
  "data_of q x = (case Base_serialize q x of Inl e \<Rightarrow> [] | Inr b \<Rightarrow> b)"

text \<open>
  The double that the sorted set holds for a task pushed by \<open>PriorityQueue.push\<close>, which
  sends the negated priority; \<open>None\<close> where the push raises for want of a priority or of a
  valid score.
\<close>

definition stored_score :: "pyobj \<Rightarrow> double option" where
  "stored_score x = (case priority x of None \<Rightarrow> None | Some p \<Rightarrow> to_double (py_neg p))"

definition score :: "pyobj \<Rightarrow> double" where
  "score x = (case stored_score x of None \<Rightarrow> Fin 0 | Some d \<Rightarrow> d)"

text \<open>The entry that a pushed task has in the sorted set: its score and its bytes.\<close>

definition entry_of :: "queue_obj \<Rightarrow> pyobj \<Rightarrow> double \<times> bytes" where
  "entry_of q x = (score x, data_of q x)"

text \<open>
  The exact value of a Python number, and Python's \<open>a <= b\<close> on numbers, which compares
  exact values and is false where \<open>nan\<close> is involved.
\<close>

definition num_value :: "pynum \<Rightarrow> double option" where
  "num_value x =
     (case x of
        NInt n \<Rightarrow> Some (Fin (of_int n))
      | NFloat (Finite m e) \<Rightarrow> Some (Fin (of_int m * pow2 e))
      | NFloat (Infinity b) \<Rightarrow> Some (if b then PInf else MInf)
      | NFloat NaN \<Rightarrow> None)"

definition num_le :: "pynum \<Rightarrow> pynum \<Rightarrow> bool" where
  "num_le a b =
     (case num_value a of
        None \<Rightarrow> False
      | Some u \<Rightarrow> (case num_value b of None \<Rightarrow> False | Some v \<Rightarrow> u \<le> v))"

text \<open>
  The sorted set holds the task's score exactly: the double read from the negated priority
  is the negated priority.
\<close>

definition held_exactly :: "pyobj \<Rightarrow> bool" where
  "held_exactly x =
     (case priority x of
        None \<Rightarrow> False
      | Some p \<Rightarrow>
          (case to_double (py_neg p) of
             None \<Rightarrow> False
           | Some d \<Rightarrow> num_value (py_neg p) = Some d))"

text \<open>Tasks in descending order of priority: no task has a lower priority than a later one.\<close>

definition descending :: "pyobj list \<Rightarrow> bool" where
  "descending ps =
     sorted_wrt
       (\<lambda>a b. case priority a of
                None \<Rightarrow> False
              | Some pa \<Rightarrow> (case priority b of None \<Rightarrow> False | Some pb \<Rightarrow> num_le pb pa))
       ps"

text \<open>Pushing the tasks of a list one after the other; popping \<open>n\<close> times in a row.\<close>

fun push_all :: "queue_obj \<Rightarrow> pyobj list \<Rightarrow> server \<Rightarrow> unit result" where
  "push_all q [] srv = (Inr (), srv)"
| "push_all q (x # xs) srv = bind (push q x srv) (\<lambda>u s. push_all q xs s)"

fun pop_n :: "queue_obj \<Rightarrow> int \<Rightarrow> nat \<Rightarrow> server \<Rightarrow> pyobj list result" where
  "pop_n q timeout 0 srv = (Inr [], srv)"
| "pop_n q timeout (Suc n) srv =
     bind (pop q timeout srv)
       (\<lambda>v s. bind (pop_n q timeout n s) (\<lambda>vs s'. (Inr (v # vs), s')))"

text \<open>Asking the filter about the tasks of a list one after the other.\<close>

fun seen_all ::
  "(pyobj \<Rightarrow> bytes) \<Rightarrow> dupefilter \<Rightarrow> pyobj list \<Rightarrow> server \<Rightarrow> bool list result" where
  "seen_all fp d [] srv = (Inr [], srv)"
| "seen_all fp d (y # ys) srv =
     bind (RFPDupeFilter_obj_seen fp d y srv)
       (\<lambda>r s. bind (seen_all fp d ys s) (\<lambda>rs s'. (Inr (r # rs), s')))"

section \<open>Example objects\<close>

text \<open>
  A small codec of the kind a host injects, used where a statement is evaluated on concrete
  objects: a tag byte, integers in binary after their sign, strings as they are.
\<close>

function bits :: "int \<Rightarrow> bytes" where
  "bits n =
     (if n \<le> 0 then [] else bits (n div 2) @ [if even n then CHR ''0'' else CHR ''1''])"
  by pat_completeness auto
termination
  by (relation "measure nat") auto

declare bits.simps [simp del]

definition int_bytes :: "int \<Rightarrow> bytes" where
  "int_bytes n = (if n < 0 then CHR ''-'' else CHR ''+'') # bits \<bar>n\<bar>"

definition parse_int :: "bytes \<Rightarrow> int option" where
  "parse_int b =
     (case b of
        [] \<Rightarrow> None
      | c # ds \<Rightarrow>
          (if \<not> list_all (\<lambda>d. d = CHR ''0'' \<or> d = CHR ''1'') ds then None
           else
             (let v = foldl (\<lambda>a d. 2 * a + (if d = CHR ''1'' then 1 else 0)) 0 ds in
              if c = CHR ''+'' then Some v
              else if c = CHR ''-'' then Some (- v)
              else None)))"

definition num_bytes :: "pynum \<Rightarrow> bytes" where
  "num_bytes x =
     (case x of
        NInt n \<Rightarrow> CHR ''i'' # int_bytes n
      | NFloat (Finite m e) \<Rightarrow> CHR ''f'' # int_bytes m @ CHR ''e'' # int_bytes e
      | NFloat (Infinity b) \<Rightarrow> (if b then ''+inf'' else ''-inf'')
      | NFloat NaN \<Rightarrow> ''nan'')"

definition parse_num :: "bytes \<Rightarrow> pynum option" where
  "parse_num b =
     (if b = ''+inf'' then Some (NFloat (Infinity True))
      else if b = ''-inf'' then Some (NFloat (Infinity False))
      else if b = ''nan'' then Some (NFloat NaN)
      else
        (case b of
           [] \<Rightarrow> None
         | c # rest \<Rightarrow>
             (if c = CHR ''i'' then map_option NInt (parse_int rest)
              else if c = CHR ''f'' then
                (let u = takeWhile (\<lambda>d. d \<noteq> CHR ''e'') rest in
                 if length u = length rest then None
                 else
                   (case parse_int u of
                      None \<Rightarrow> None
                    | Some m \<Rightarrow>
                        (case parse_int (drop (Suc (length u)) rest) of
                           None \<Rightarrow> None
                         | Some e \<Rightarrow> Some (NFloat (Finite m e)))))
              else None)))"

definition example_dumps :: "pyobj \<Rightarrow> error + bytes" where
  "example_dumps obj =
     (case obj of
        PNone \<Rightarrow> Inr ''N''
      | PInt n \<Rightarrow> Inr (CHR ''I'' # int_bytes n)
      | PStr s \<Rightarrow> Inr (CHR ''S'' # s)
      | PList xs \<Rightarrow> Inl TypeError
      | PTask p s \<Rightarrow> Inr (CHR ''T'' # num_bytes p @ CHR '':'' # s))"

definition example_loads :: "bytes \<Rightarrow> error + pyobj" where
  "example_loads b =
     (case b of
        [] \<Rightarrow> Inl DecodeError
      | c # rest \<Rightarrow>
          (if c = CHR ''N'' \<and> rest = [] then Inr PNone
           else if c = CHR ''I'' then
             (case parse_int rest of None \<Rightarrow> Inl DecodeError | Some n \<Rightarrow> Inr (PInt n))
           else if c = CHR ''S'' then Inr (PStr rest)
           else if c = CHR ''T'' then
             (let u = takeWhile (\<lambda>d. d \<noteq> CHR '':'') rest in
              if length u = length rest then Inl DecodeError
              else
                (case parse_num u of
                   None \<Rightarrow> Inl DecodeError
                 | Some p \<Rightarrow> Inr (PTask p (drop (Suc (length u)) rest))))
           else Inl DecodeError))"

text \<open>
  A second codec, for hosts whose tasks are plain strings: a string is stored as its own
  bytes.
\<close>

definition text_dumps :: "pyobj \<Rightarrow> error + bytes" where
  "text_dumps obj = (case obj of PStr s \<Rightarrow> Inr s | _ \<Rightarrow> Inl TypeError)"

definition text_loads :: "bytes \<Rightarrow> error + pyobj" where
  "text_loads b = Inr (PStr b)"

definition text_serializer :: serializer_obj where
  "text_serializer = \<lparr>loads_attr = Some text_loads, dumps_attr = Some text_dumps\<rparr>"

definition text_queue :: "queue_cls \<Rightarrow> key \<Rightarrow> queue_obj" where
  "text_queue c k = \<lparr>q_cls = c, q_key = k, q_serializer = text_serializer\<rparr>"

definition example_serializer :: serializer_obj where
  "example_serializer = \<lparr>loads_attr = Some example_loads, dumps_attr = Some example_dumps\<rparr>"

definition example_fingerprint :: "pyobj \<Rightarrow> bytes" where
  "example_fingerprint obj = (case example_dumps obj of Inl e \<Rightarrow> [] | Inr b \<Rightarrow> b)"

definition example_queue :: "queue_cls \<Rightarrow> key \<Rightarrow> queue_obj" where
  "example_queue c k = \<lparr>q_cls = c, q_key = k, q_serializer = example_serializer\<rparr>"

definition empty_server :: server where
  "empty_server = \<lparr>store = (\<lambda>k. None), blocked = 0\<rparr>"

text \<open>A store with one encoded task in a list and its fingerprint in a set.\<close>

definition example_server :: server where
  "example_server =
     \<lparr>store = (\<lambda>k. None)(''queue'' \<mapsto> RList [''Sjob''], ''dupefilter'' \<mapsto> RSet {''Sjob''}),
      blocked = 0\<rparr>"

definition example_scheduler :: "bool \<Rightarrow> queue_cls \<Rightarrow> scheduler" where
  "example_scheduler p c =
     \<lparr>persist = p, flush_on_start = False, queue_key = ''queue'',
      queue_cls = ''redisqueue.rqueues.FifoQueue'', idle_before_close = 0,
      serializer = Some example_serializer, queue = Some (example_queue c ''queue'')\<rparr>"

definition example_dupefilter_scheduler :: "bool \<Rightarrow> queue_cls \<Rightarrow> dupefilter_scheduler" where
  "example_dupefilter_scheduler p c =
     scheduler.extend (example_scheduler p c)
       (dupefilter_scheduler.fields ''dupefilter'' ''redisqueue.dupefilter.RFPDupeFilter'' False
          (Some (RFPDupeFilter_init ''dupefilter'' False)))"

definition example_pipe_scheduler :: "queue_cls \<Rightarrow> queue_cls \<Rightarrow> pipe_scheduler" where
  "example_pipe_scheduler ci co =
     \<lparr>p_persist = False, p_flush_on_start = False, queue_in_key = ''queue_in'',
      queue_in_cls = ''redisqueue.rqueues.FifoQueue'', queue_out_key = ''queue_out'',
      queue_out_cls = ''redisqueue.rqueues.FifoQueue'', p_idle_before_close = 0,
      p_serializer = Some example_serializer,
      queue_in = Some (example_queue ci ''queue_in''),
      queue_out = Some (example_queue co ''queue_out'')\<rparr>"

text \<open>The store after the example pipe scheduler has taken the task 0 on its inbound side.\<close>

definition zero_inbound :: server where
  "zero_inbound =
     snd (PipeScheduler_enqueue (example_pipe_scheduler FifoQueue FifoQueue) (PInt 0) ''in''
            empty_server)"

section \<open>Basic facts\<close>

lemma bind_Inl [simp]: "bind (Inl e, s) f = (Inl e, s)"
  by (simp add: bind_def)

lemma bind_Inr [simp]: "bind (Inr a, s) f = f a s"
  by (simp add: bind_def)

lemmas store_defs = put_list_def put_zset_def lpush_def rpop_def lpop_def brpop_def blpop_def
  llen_def zadd_def zrange_0_0_def zremrangebyrank_0_0_def zcard_def pipeline_execute_def

subsection \<open>Queues through their pending items\<close>

lemma pop_pending_Cons:
  assumes "pending q srv = Some (b # rest)"
  shows "fst (pop q t srv) =
           (if b = [] \<and> q_cls q \<noteq> PriorityQueue then Inr PNone else Base_unserialize q b)"
    and "pending q (snd (pop q t srv)) = Some rest"
    and "k \<noteq> q_key q \<Longrightarrow> store (snd (pop q t srv)) k = store srv k"
    and "blocked (snd (pop q t srv)) = blocked srv"
  using assms
  by (auto simp: pending_def pop_def FifoQueue_pop_def LifoQueue_pop_def PriorityQueue_pop_def
      unserialize_if_def store_defs rev_eq_Cons_iff butlast_append
      split: option.splits rval.splits queue_cls.splits list.splits sum.splits if_splits)

lemma pop_pending_Nil:
  assumes "pending q srv = Some []"
  shows "fst (pop q t srv) = Inr PNone"
    and "pending q (snd (pop q t srv)) = Some []"
    and "k \<noteq> q_key q \<Longrightarrow> store (snd (pop q t srv)) k = store srv k"
    and "t \<le> 0 \<or> q_cls q = PriorityQueue \<Longrightarrow> blocked (snd (pop q t srv)) = blocked srv"
  using assms
  by (auto simp: pending_def pop_def FifoQueue_pop_def LifoQueue_pop_def PriorityQueue_pop_def
      unserialize_if_def store_defs
      split: option.splits rval.splits queue_cls.splits list.splits sum.splits if_splits)

lemma FifoQueue_pop_empty:
  assumes "q_cls q = FifoQueue" and "pending q srv = Some []"
  shows "FifoQueue_pop q 0 srv = (Inr PNone, srv)"
  using assms
  by (auto simp: pending_def FifoQueue_pop_def unserialize_if_def store_defs
      split: option.splits rval.splits queue_cls.splits list.splits sum.splits if_splits)

lemma push_pending_list:
  assumes "pending q srv = Some items" and "Base_serialize q x = Inr b"
    and "q_cls q \<noteq> PriorityQueue"
  shows "fst (push q x srv) = Inr PNone"
    and "pending q (snd (push q x srv)) =
           Some (if q_cls q = FifoQueue then items @ [b] else b # items)"
    and "k \<noteq> q_key q \<Longrightarrow> store (snd (push q x srv)) k = store srv k"
    and "blocked (snd (push q x srv)) = blocked srv"
  using assms
  by (auto simp: pending_def push_def FifoQueue_push_def LifoQueue_push_def store_defs
      split: option.splits rval.splits queue_cls.splits list.splits sum.splits if_splits)


lemma roundtrips_data_of:
  assumes "roundtrips q x"
  shows "Base_serialize q x = Inr (data_of q x)"
    and "Base_unserialize q (data_of q x) = Inr x"
  using assms by (auto simp: roundtrips_def data_of_def split: sum.splits)

lemma nonempty_data_of: "nonempty_data q x \<Longrightarrow> data_of q x \<noteq> []"
  by (auto simp: nonempty_data_def data_of_def split: sum.splits)

lemma push_all_fifo:
  assumes "q_cls q = FifoQueue" and "pending q srv = Some items"
    and "\<forall>x\<in>set xs. roundtrips q x"
  shows "fst (push_all q xs srv) = Inr () \<and>
         pending q (snd (push_all q xs srv)) = Some (items @ map (data_of q) xs) \<and>
         blocked (snd (push_all q xs srv)) = blocked srv"
  using assms
proof (induction xs arbitrary: srv items)
  case Nil
  then show ?case by simp
next
  case (Cons x xs)
  have ser: "Base_serialize q x = Inr (data_of q x)"
    using Cons.prems(3) by (simp add: roundtrips_data_of)
  have ne: "q_cls q \<noteq> PriorityQueue" using Cons.prems(1) by simp
  note push = push_pending_list [OF Cons.prems(2) ser ne]
  obtain s where p: "push q x srv = (Inr PNone, s)"
    using push(1) by (cases "push q x srv") auto
  have pend: "pending q s = Some (items @ [data_of q x])"
    using push(2) Cons.prems(1) by (simp add: p)
  have bl: "blocked s = blocked srv"
    using push(4) by (simp add: p)
  have rest: "\<forall>y\<in>set xs. roundtrips q y" using Cons.prems(3) by simp
  show ?case
    using Cons.IH [OF Cons.prems(1) pend rest] by (simp add: p bl)
qed

lemma pop_n_pending:
  assumes "pending q srv = Some (map (data_of q) xs @ rest)"
    and "\<forall>x\<in>set xs. roundtrips q x \<and> (nonempty_data q x \<or> q_cls q = PriorityQueue)"
  shows "fst (pop_n q t (length xs) srv) = Inr xs \<and>
         pending q (snd (pop_n q t (length xs) srv)) = Some rest \<and>
         blocked (snd (pop_n q t (length xs) srv)) = blocked srv"
  using assms
proof (induction xs arbitrary: srv)
  case Nil
  then show ?case by simp
next
  case (Cons x xs)
  have pend0: "pending q srv = Some (data_of q x # (map (data_of q) xs @ rest))"
    using Cons.prems(1) by simp
  note popc = pop_pending_Cons [OF pend0, where t = t]
  have rt: "roundtrips q x" and ne: "nonempty_data q x \<or> q_cls q = PriorityQueue"
    using Cons.prems(2) by simp_all
  have "fst (pop q t srv) = Inr x"
    using popc(1) rt ne
    by (auto simp: roundtrips_data_of(2) dest: nonempty_data_of)
  then obtain s where p: "pop q t srv = (Inr x, s)"
    by (cases "pop q t srv") auto
  have pend: "pending q s = Some (map (data_of q) xs @ rest)"
    using popc(2) by (simp add: p)
  have bl: "blocked s = blocked srv" using popc(4) by (simp add: p)
  have rest': "\<forall>y\<in>set xs. roundtrips q y \<and> (nonempty_data q y \<or> q_cls q = PriorityQueue)"
    using Cons.prems(2) by simp
  obtain s' where r: "pop_n q t (length xs) s = (Inr xs, s')"
    using Cons.IH [OF pend rest'] by (cases "pop_n q t (length xs) s") auto
  show ?case using Cons.IH [OF pend rest'] bl by (simp add: p r)
qed


subsection \<open>The sorted set of a PriorityQueue\<close>

lemma pending_priority:
  "q_cls q = PriorityQueue \<Longrightarrow> pending q srv = map_option (map snd) (zset_of (q_key q) srv)"
  by (simp add: pending_def zset_of_def split: option.splits rval.splits)

lemma insort_not_Nil': "insort a ys \<noteq> []"
  by (cases ys) auto

lemma push_zset:
  assumes "q_cls q = PriorityQueue" and "zset_of (q_key q) srv = Some zs"
    and "Base_serialize q x = Inr b" and "stored_score x = Some d"
  shows "fst (push q x srv) = Inr PNone"
    and "zset_of (q_key q) (snd (push q x srv))
           = Some (insort (d, b) (filter (\<lambda>z. snd z \<noteq> b) zs))"
    and "k \<noteq> q_key q \<Longrightarrow> store (snd (push q x srv)) k = store srv k"
    and "blocked (snd (push q x srv)) = blocked srv"
  using assms
  by (auto simp: zset_of_def push_def PriorityQueue_push_def zadd_def put_zset_def
      stored_score_def insort_not_Nil' split: option.splits rval.splits)

lemma data_of_inj:
  assumes "roundtrips q x" and "roundtrips q y" and "data_of q x = data_of q y"
  shows "x = y"
proof -
  have "Inr x = Base_unserialize q (data_of q x)"
    by (simp only: roundtrips_data_of(2) [OF assms(1)])
  also have "\<dots> = Base_unserialize q (data_of q y)" by (simp only: assms(3))
  also have "\<dots> = Inr y" by (simp only: roundtrips_data_of(2) [OF assms(2)])
  finally show ?thesis by simp
qed

lemma zadd_invariant:
  assumes srt: "sorted zs" and dis: "distinct (map snd zs)"
  shows "sorted (insort (s, b) (filter (\<lambda>z. snd z \<noteq> b) zs))"
    and "distinct (map snd (insort (s, b) (filter (\<lambda>z. snd z \<noteq> b) zs)))"
proof -
  let ?ys = "filter (\<lambda>z. snd z \<noteq> b) zs"
  show "sorted (insort (s, b) ?ys)"
    using srt by (simp add: sorted_insort sorted_wrt_filter)
  have d: "distinct ?ys" "inj_on snd (set ?ys)"
    using dis by (simp_all add: distinct_map distinct_map_filter inj_on_def)
  have n: "(s, b) \<notin> set ?ys" by auto
  have n': "b \<notin> snd ` (set ?ys - {(s, b)})" by auto
  have "distinct (insort (s, b) ?ys)"
    using d(1) n by (simp only: distinct_insort) simp
  moreover have "inj_on snd (insert (s, b) (set ?ys))"
    using d(2) n' by (simp only: inj_on_insert) simp
  ultimately show "distinct (map snd (insort (s, b) ?ys))"
    by (simp only: distinct_map set_insort_key)
qed

lemma push_all_priority:
  assumes "q_cls q = PriorityQueue" and "zset_of (q_key q) srv = Some zs"
    and "sorted zs" and "distinct (map snd zs)" and "set zs = entry_of q ` S"
    and "\<forall>x\<in>S \<union> set xs. roundtrips q x \<and> stored_score x \<noteq> None"
  shows "fst (push_all q xs srv) = Inr () \<and>
         (\<exists>zs'. zset_of (q_key q) (snd (push_all q xs srv)) = Some zs' \<and> sorted zs' \<and>
                 distinct (map snd zs') \<and> set zs' = entry_of q ` (S \<union> set xs)) \<and>
         blocked (snd (push_all q xs srv)) = blocked srv"
  using assms
proof (induction xs arbitrary: srv zs S)
  case Nil
  then show ?case by simp
next
  case (Cons x xs)
  have rt: "roundtrips q x" and "stored_score x \<noteq> None" using Cons.prems(6) by simp_all
  then obtain d where pr: "stored_score x = Some d" by auto
  have ser: "Base_serialize q x = Inr (data_of q x)" using rt by (simp add: roundtrips_data_of)
  note push = push_zset [OF Cons.prems(1,2) ser pr]
  let ?zs = "insort (d, data_of q x) (filter (\<lambda>z. snd z \<noteq> data_of q x) zs)"
  obtain s where p: "push q x srv = (Inr PNone, s)"
    using push(1) by (cases "push q x srv") auto
  have z: "zset_of (q_key q) s = Some ?zs" using push(2) by (simp add: p)
  have bl: "blocked s = blocked srv" using push(4) by (simp add: p)
  have e: "entry_of q x = (d, data_of q x)" by (simp add: entry_of_def score_def pr)
  have F: "{z \<in> entry_of q ` S. snd z \<noteq> data_of q x} = entry_of q ` (S - {x})"
  proof (intro equalityI subsetI)
    fix z assume "z \<in> {z \<in> entry_of q ` S. snd z \<noteq> data_of q x}"
    then obtain y where "y \<in> S" "z = entry_of q y" "data_of q y \<noteq> data_of q x"
      by (auto simp: entry_of_def)
    then show "z \<in> entry_of q ` (S - {x})" by auto
  next
    fix z assume "z \<in> entry_of q ` (S - {x})"
    then obtain y where y: "y \<in> S" "y \<noteq> x" "z = entry_of q y" by auto
    have "roundtrips q y" using y(1) Cons.prems(6) by simp
    then have "data_of q y \<noteq> data_of q x" using data_of_inj [OF _ rt] y(2) by blast
    then show "z \<in> {z \<in> entry_of q ` S. snd z \<noteq> data_of q x}"
      using y by (auto simp: entry_of_def)
  qed
  have "set ?zs = insert (entry_of q x) {z \<in> set zs. snd z \<noteq> data_of q x}"
    by (simp add: set_insort_key e)
  also have "\<dots> = insert (entry_of q x) {z \<in> entry_of q ` S. snd z \<noteq> data_of q x}"
    by (simp only: Cons.prems(5))
  also have "\<dots> = insert (entry_of q x) (entry_of q ` (S - {x}))"
    by (simp only: F)
  also have "\<dots> = entry_of q ` (insert x S)"
    by blast
  finally have st: "set ?zs = entry_of q ` (insert x S)" .
  have hyp: "\<forall>y\<in>insert x S \<union> set xs. roundtrips q y \<and> stored_score y \<noteq> None"
    using Cons.prems(6) by simp
  have eq: "insert x S \<union> set xs = S \<union> set (x # xs)" by auto
  obtain zs' where ih: "fst (push_all q xs s) = Inr ()"
    "zset_of (q_key q) (snd (push_all q xs s)) = Some zs'" "sorted zs'"
    "distinct (map snd zs')" "set zs' = entry_of q ` (S \<union> set (x # xs))"
    "blocked (snd (push_all q xs s)) = blocked s"
    using Cons.IH [OF Cons.prems(1) z zadd_invariant [OF Cons.prems(3,4)] st hyp]
    unfolding eq by blast
  have run: "push_all q (x # xs) srv = push_all q xs s"
    by (simp add: p)
  show ?case
    unfolding run using ih bl by (intro conjI exI [of _ zs']) simp_all
qed

lemma sorted_fst:
  fixes zs :: "(double \<times> bytes) list"
  assumes "sorted zs"
  shows "sorted (map fst zs)"
proof -
  have "sorted_wrt (\<lambda>a b. fst a \<le> fst b) zs"
    by (rule sorted_wrt_mono_rel [OF _ assms]) (auto simp: less_eq_prod_def)
  then show ?thesis by (simp add: sorted_map)
qed

subsection \<open>The member set of a filter\<close>

lemma obj_seen_members:
  assumes "members (df_key d) srv = Some ms"
  shows "RFPDupeFilter_obj_seen fp d x srv =
           (Inr (fp x \<in> ms),
            srv\<lparr>store := (store srv)(df_key d \<mapsto> RSet (insert (fp x) ms))\<rparr>)"
  using assms
  by (auto simp: members_def RFPDupeFilter_obj_seen_def sadd_def
      split: option.splits rval.splits)

lemma members_upd [simp]:
  "members k (srv\<lparr>store := (store srv)(k \<mapsto> RSet ms)\<rparr>) = Some ms"
  by (simp add: members_def)

lemma clear_members:
  "fst (RFPDupeFilter_clear d srv) = Inr PNone"
  "members (df_key d) (snd (RFPDupeFilter_clear d srv)) = Some {}"
  by (simp_all add: RFPDupeFilter_clear_def delete_def members_def)

lemma seen_all_members:
  assumes "members (df_key d) srv = Some ms"
  shows "\<exists>rs s. seen_all fp d ys srv = (Inr rs, s) \<and>
                members (df_key d) s = Some (ms \<union> fp ` set ys)"
  using assms
proof (induction ys arbitrary: srv ms)
  case Nil
  then show ?case by simp
next
  case (Cons y ys)
  let ?s = "srv\<lparr>store := (store srv)(df_key d \<mapsto> RSet (insert (fp y) ms))\<rparr>"
  have m: "members (df_key d) ?s = Some (insert (fp y) ms)" by simp
  obtain rs s where r: "seen_all fp d ys ?s = (Inr rs, s)"
    and ms: "members (df_key d) s = Some (insert (fp y) ms \<union> fp ` set ys)"
    using Cons.IH [OF m] by blast
  have "seen_all fp d (y # ys) srv = (Inr ((fp y \<in> ms) # rs), s)"
    by (simp add: obj_seen_members [OF Cons.prems] r)
  then show ?case using ms by simp
qed

subsection \<open>Pushing behind a filter\<close>



subsection \<open>Scores and priorities\<close>

lemma nbits_le: "a < 2 ^ k \<Longrightarrow> nbits a \<le> int k"
proof (induction k arbitrary: a)
  case 0
  then show ?case by (simp add: nbits.simps)
next
  case (Suc k)
  show ?case
  proof (cases "a \<le> 0")
    case True
    then show ?thesis by (simp add: nbits.simps)
  next
    case False
    have "a div 2 < 2 ^ k" using Suc.prems by simp
    then have "nbits (a div 2) \<le> int k" by (rule Suc.IH)
    then show ?thesis using False by (subst nbits.simps) simp
  qed
qed

lemma to_double_small:
  assumes "\<bar>n\<bar> \<le> 9007199254740992"
  shows "to_double (NInt n) = Some (Fin (of_int n))"
proof -
  have "\<bar>n\<bar> < 2 ^ 54" using assms by simp
  then have "nbits \<bar>n\<bar> \<le> int 54" by (rule nbits_le)
  then show ?thesis using assms by (simp add: to_double_def round_to_double_def)
qed

lemma held_exactly_int:
  assumes "\<bar>n\<bar> \<le> 9007199254740992"
  shows "held_exactly (PTask (NInt n) s)"
  using to_double_small [of "- n"] assms by (simp add: held_exactly_def num_value_def)

lemma held_exactly_float: "f \<noteq> NaN \<Longrightarrow> held_exactly (PTask (NFloat f) s)"
  by (cases f) (simp_all add: held_exactly_def num_value_def to_double_def)

lemma held_exactly_stored: "held_exactly x \<Longrightarrow> stored_score x \<noteq> None"
  by (auto simp: held_exactly_def stored_score_def split: option.splits)

lemma num_value_neg:
  assumes "num_value (py_neg p) = Some d"
  shows "\<exists>v. num_value p = Some v \<and>
             d = (case v of MInf \<Rightarrow> PInf | Fin r \<Rightarrow> Fin (- r) | PInf \<Rightarrow> MInf)"
proof (cases p)
  case (NInt n)
  then show ?thesis using assms by (auto simp: num_value_def)
next
  case (NFloat f)
  then show ?thesis using assms by (cases f) (auto simp: num_value_def)
qed

lemma num_value_neg_le:
  assumes "num_value (py_neg pa) = Some da" and "num_value (py_neg pb) = Some db"
    and "da \<le> db"
  shows "num_le pb pa"
proof -
  obtain va where va: "num_value pa = Some va"
    and da: "da = (case va of MInf \<Rightarrow> PInf | Fin r \<Rightarrow> Fin (- r) | PInf \<Rightarrow> MInf)"
    using num_value_neg [OF assms(1)] by blast
  obtain vb where vb: "num_value pb = Some vb"
    and db: "db = (case vb of MInf \<Rightarrow> PInf | Fin r \<Rightarrow> Fin (- r) | PInf \<Rightarrow> MInf)"
    using num_value_neg [OF assms(2)] by blast
  have "vb \<le> va"
    using assms(3) unfolding da db
    by (cases va; cases vb) (simp_all add: less_eq_double_def)
  then show ?thesis by (simp add: num_le_def va vb)
qed

lemma held_exactly_le:
  assumes "held_exactly a" and "held_exactly b" and "score a \<le> score b"
  shows "case priority a of
           None \<Rightarrow> False
         | Some pa \<Rightarrow> (case priority b of None \<Rightarrow> False | Some pb \<Rightarrow> num_le pb pa)"
proof -
  obtain pa da where a: "priority a = Some pa" "to_double (py_neg pa) = Some da"
    "num_value (py_neg pa) = Some da"
    using assms(1) by (auto simp: held_exactly_def split: option.splits)
  obtain pb db where b: "priority b = Some pb" "to_double (py_neg pb) = Some db"
    "num_value (py_neg pb) = Some db"
    using assms(2) by (auto simp: held_exactly_def split: option.splits)
  have "da \<le> db"
    using assms(3) by (simp add: score_def stored_score_def a b)
  then have "num_le pb pa" by (rule num_value_neg_le [OF a(3) b(3)])
  then show ?thesis by (simp add: a b)
qed

section \<open>Construction\<close>

text \<open>
  C8. Each of the three scheduler constructors raises (TypeError) when
  \<open>idle_before_close\<close> is negative and returns the object when it is not; building a
  queue with a serializer that lacks \<open>loads\<close> or \<open>dumps\<close> raises (TypeError) as well.
\<close>

theorem construction_errors:
  "(idle < 0 \<longrightarrow>
      Scheduler_init p f k c idle ser = Inl TypeError \<and>
      PipeScheduler_init p f ki ci ko co idle ser = Inl TypeError \<and>
      DupeFilterScheduler_init p f k c dk dc dd idle ser = Inl TypeError) \<and>
   (0 \<le> idle \<longrightarrow>
      (\<exists>s. Scheduler_init p f k c idle ser = Inr s) \<and>
      (\<exists>s. PipeScheduler_init p f ki ci ko co idle ser = Inr s) \<and>
      (\<exists>s. DupeFilterScheduler_init p f k c dk dc dd idle ser = Inr s)) \<and>
   (loads_attr s = None \<or> dumps_attr s = None \<longrightarrow>
      Base_init picklecompat cls qk (Some s) = Inl TypeError)"
  by (auto simp: Scheduler_init_def PipeScheduler_init_def DupeFilterScheduler_init_def
      Base_init_def)

theorem construction_errors_witness:
  "Scheduler_init True False ''q'' ''c'' (- 1) None = Inl TypeError \<and>
   PipeScheduler_init True False ''i'' ''c'' ''o'' ''c'' (- 1) None = Inl TypeError \<and>
   DupeFilterScheduler_init True False ''q'' ''c'' ''d'' ''f'' False (- 1) None = Inl TypeError \<and>
   (\<exists>s. Scheduler_init True False ''q'' ''c'' 0 None = Inr s) \<and>
   (\<exists>s. PipeScheduler_init True False ''i'' ''c'' ''o'' ''c'' 0 None = Inr s) \<and>
   (\<exists>s. DupeFilterScheduler_init True False ''q'' ''c'' ''d'' ''f'' False 0 None = Inr s) \<and>
   Base_init example_serializer FifoQueue ''q''
     (Some \<lparr>loads_attr = Some example_loads, dumps_attr = None\<rparr>) = Inl TypeError"
proof -
  have neg: "(- 1 :: int) < 0" by simp
  have nonneg: "(0 :: int) \<le> 0" by simp
  have lacks: "loads_attr \<lparr>loads_attr = Some example_loads, dumps_attr = None\<rparr> = None \<or>
               dumps_attr \<lparr>loads_attr = Some example_loads, dumps_attr = None\<rparr> = None"
    by simp
  show ?thesis
    using neg nonneg lacks
      construction_errors [where idle = "- 1" and p = True and f = False and k = "''q''"
        and c = "''c''" and ser = None and ki = "''i''" and ci = "''c''" and ko = "''o''"
        and co = "''c''" and dk = "''d''" and dc = "''f''" and dd = False
        and s = "\<lparr>loads_attr = Some example_loads, dumps_attr = None\<rparr>"
        and picklecompat = example_serializer and cls = FifoQueue and qk = "''q''"]
      construction_errors [where idle = 0 and p = True and f = False and k = "''q''"
        and c = "''c''" and ser = None and ki = "''i''" and ci = "''c''" and ko = "''o''"
        and co = "''c''" and dk = "''d''" and dc = "''f''" and dd = False
        and s = "\<lparr>loads_attr = Some example_loads, dumps_attr = None\<rparr>"
        and picklecompat = example_serializer and cls = FifoQueue and qk = "''q''"]
    by simp
qed

section \<open>PriorityQueue.pop and its timeout\<close>

text \<open>
  C7. \<open>PriorityQueue.pop\<close> ignores its timeout: for any two timeouts it returns the same
  result and leaves the same store, and it never waits (the time spent blocked is what it
  was before the call).
\<close>

theorem PriorityQueue_pop_ignores_timeout:
  "PriorityQueue_pop q t1 srv = PriorityQueue_pop q t2 srv \<and>
   blocked (snd (PriorityQueue_pop q t1 srv)) = blocked srv"
  by (simp add: PriorityQueue_pop_def pipeline_execute_def zrange_0_0_def
      zremrangebyrank_0_0_def put_zset_def
      split: option.splits rval.splits list.splits sum.splits)

section \<open>PipeScheduler and queue names\<close>

text \<open>
  C9. With a queue name other than \<open>in\<close> and \<open>out\<close>, \<open>PipeScheduler.enqueue\<close> returns
  True and \<open>PipeScheduler.dequeue\<close> returns None, and neither touches the store: the task
  given to \<open>enqueue\<close> is dropped.
\<close>

theorem PipeScheduler_unknown_queue_name:
  assumes "queue_name \<noteq> ''in''" and "queue_name \<noteq> ''out''"
  shows "PipeScheduler_enqueue sch obj queue_name srv = (Inr True, srv) \<and>
         PipeScheduler_dequeue sch queue_name srv = (Inr PNone, srv)"
  using assms by (simp add: PipeScheduler_enqueue_def PipeScheduler_dequeue_def)

theorem PipeScheduler_unknown_queue_name_witness:
  "PipeScheduler_enqueue (example_pipe_scheduler FifoQueue FifoQueue) (PStr ''job'') ''side''
     empty_server = (Inr True, empty_server) \<and>
   PipeScheduler_dequeue (example_pipe_scheduler FifoQueue FifoQueue) ''side'' empty_server
     = (Inr PNone, empty_server)"
proof -
  have a: "''side'' \<noteq> ''in''" by simp
  have b: "''side'' \<noteq> ''out''" by simp
  show ?thesis by (rule PipeScheduler_unknown_queue_name [OF a b])
qed

section \<open>close\<close>

text \<open>
  C6. On an opened Scheduler, \<open>close\<close> deletes the queue's key when \<open>persist\<close> is not set
  and leaves the store as it is when \<open>persist\<close> is set. On an opened DupeFilterScheduler it
  deletes the filter's key and the queue's key when \<open>persist\<close> is not set and leaves the
  store as it is otherwise.
\<close>

theorem close_flushes_unless_persist:
  assumes "queue sch = Some q" and "queue dsch = Some q'" and "df dsch = Some d"
  shows "Scheduler_close sch srv =
           (Inr PNone, if persist sch then srv
                       else srv\<lparr>store := (store srv)(q_key q := None)\<rparr>) \<and>
         DupeFilterScheduler_close dsch srv =
           (Inr PNone, if persist dsch then srv
                       else srv\<lparr>store := (store srv)(df_key d := None, q_key q' := None)\<rparr>)"
  using assms
  by (simp add: Scheduler_close_def Scheduler_flush_def DupeFilterScheduler_close_def
      DupeFilterScheduler_flush_def Base_clear_def RFPDupeFilter_clear_def delete_def)

theorem close_flushes_unless_persist_witness:
  "Scheduler_close (example_scheduler False FifoQueue) example_server =
     (Inr PNone, example_server\<lparr>store := (store example_server)(''queue'' := None)\<rparr>) \<and>
   Scheduler_close (example_scheduler True FifoQueue) example_server
     = (Inr PNone, example_server) \<and>
   DupeFilterScheduler_close (example_dupefilter_scheduler False FifoQueue) example_server =
     (Inr PNone,
      example_server\<lparr>store := (store example_server)(''dupefilter'' := None, ''queue'' := None)\<rparr>) \<and>
   DupeFilterScheduler_close (example_dupefilter_scheduler True FifoQueue) example_server
     = (Inr PNone, example_server)"
proof -
  have q: "queue (example_scheduler p FifoQueue) = Some (example_queue FifoQueue ''queue'')"
    for p
    by (simp add: example_scheduler_def)
  have q': "queue (example_dupefilter_scheduler p FifoQueue)
              = Some (example_queue FifoQueue ''queue'')" for p
    by (simp add: example_dupefilter_scheduler_def example_scheduler_def scheduler.defs)
  have d: "df (example_dupefilter_scheduler p FifoQueue)
             = Some (RFPDupeFilter_init ''dupefilter'' False)" for p
    by (simp add: example_dupefilter_scheduler_def dupefilter_scheduler.defs scheduler.defs)
  have p1: "persist (example_scheduler p FifoQueue) = p"
    "persist (example_dupefilter_scheduler p FifoQueue) = p" for p
    by (simp_all add: example_dupefilter_scheduler_def example_scheduler_def scheduler.defs)
  show ?thesis
    using close_flushes_unless_persist [OF q [of False] q' [of False] d [of False],
        where srv = example_server]
      close_flushes_unless_persist [OF q [of True] q' [of True] d [of True],
        where srv = example_server]
    by (simp add: p1 example_queue_def RFPDupeFilter_init_def)
qed

section \<open>FifoQueue\<close>

text \<open>
  C1, evaluated where it fails. A FIFO queue with the codec for plain strings, which
  decodes every string it encodes, is given the empty string and then the string \<open>x\<close>; both
  pushes return, and the queue holds two items. Two pops return None and \<open>x\<close>, and the queue
  is empty afterwards: the first task pushed has left the queue and has not been returned.
\<close>

theorem FifoQueue_pop_loses_empty_bytes:
  "roundtrips (text_queue FifoQueue ''queue'') (PStr '''') \<and>
   roundtrips (text_queue FifoQueue ''queue'') (PStr ''x'') \<and>
   fst (push_all (text_queue FifoQueue ''queue'') [PStr '''', PStr ''x''] empty_server)
     = Inr () \<and>
   fst (len (text_queue FifoQueue ''queue'')
          (snd (push_all (text_queue FifoQueue ''queue'') [PStr '''', PStr ''x'']
                  empty_server))) = Inr 2 \<and>
   fst (pop_n (text_queue FifoQueue ''queue'') 0 2
          (snd (push_all (text_queue FifoQueue ''queue'') [PStr '''', PStr ''x'']
                  empty_server))) = Inr [PNone, PStr ''x''] \<and>
   fst (len (text_queue FifoQueue ''queue'')
          (snd (pop_n (text_queue FifoQueue ''queue'') 0 2
                  (snd (push_all (text_queue FifoQueue ''queue'') [PStr '''', PStr ''x'']
                          empty_server))))) = Inr 0"
  by code_simp

text \<open>
  What \<open>pop\<close> does otherwise: tasks that the codec encodes to bytes that are not empty and
  decodes back to themselves come back from an empty FifoQueue, with any timeout, in the
  order in which they were pushed, and a \<open>pop\<close> with timeout 0 on the queue emptied this way
  returns None and leaves the store, the time spent blocked included, as it was.
\<close>

lemma FifoQueue_pops_nonempty_in_push_order:
  assumes "q_cls q = FifoQueue" and "pending q srv = Some []"
    and "\<forall>x\<in>set xs. roundtrips q x \<and> nonempty_data q x"
  shows "fst (push_all q xs srv) = Inr () \<and>
         fst (pop_n q t (length xs) (snd (push_all q xs srv))) = Inr xs \<and>
         pop q 0 (snd (pop_n q t (length xs) (snd (push_all q xs srv))))
           = (Inr PNone, snd (pop_n q t (length xs) (snd (push_all q xs srv))))"
proof -
  let ?s1 = "snd (push_all q xs srv)"
  let ?s2 = "snd (pop_n q t (length xs) ?s1)"
  have rt: "\<forall>x\<in>set xs. roundtrips q x" using assms(3) by simp
  have a: "fst (push_all q xs srv) = Inr ()" and b: "pending q ?s1 = Some (map (data_of q) xs @ [])"
    using push_all_fifo [OF assms(1,2) rt] by simp_all
  have h: "\<forall>x\<in>set xs. roundtrips q x \<and> (nonempty_data q x \<or> q_cls q = PriorityQueue)"
    using assms(3) by simp
  have c: "fst (pop_n q t (length xs) ?s1) = Inr xs" and d: "pending q ?s2 = Some []"
    using pop_n_pending [OF b h, of t] by simp_all
  have e: "pop q 0 ?s2 = (Inr PNone, ?s2)"
    using FifoQueue_pop_empty [OF assms(1) d] assms(1) by (simp add: pop_def)
  show ?thesis using a c e by simp
qed

lemma FifoQueue_pops_nonempty_example:
  "fst (push_all (example_queue FifoQueue ''queue'') [PStr ''A'', PStr ''B'', PStr ''C'']
          empty_server) = Inr () \<and>
   fst (pop_n (example_queue FifoQueue ''queue'') 0 3
          (snd (push_all (example_queue FifoQueue ''queue'')
                  [PStr ''A'', PStr ''B'', PStr ''C''] empty_server)))
     = Inr [PStr ''A'', PStr ''B'', PStr ''C''] \<and>
   pop (example_queue FifoQueue ''queue'') 0
     (snd (pop_n (example_queue FifoQueue ''queue'') 0 3
             (snd (push_all (example_queue FifoQueue ''queue'')
                     [PStr ''A'', PStr ''B'', PStr ''C''] empty_server))))
     = (Inr PNone,
        snd (pop_n (example_queue FifoQueue ''queue'') 0 3
               (snd (push_all (example_queue FifoQueue ''queue'')
                       [PStr ''A'', PStr ''B'', PStr ''C''] empty_server))))"
proof -
  have c: "q_cls (example_queue FifoQueue ''queue'') = FifoQueue"
    by (simp add: example_queue_def)
  have e: "pending (example_queue FifoQueue ''queue'') empty_server = Some []"
    by (simp add: pending_def example_queue_def empty_server_def)
  have r: "\<forall>x\<in>set [PStr ''A'', PStr ''B'', PStr ''C''].
             roundtrips (example_queue FifoQueue ''queue'') x \<and>
             nonempty_data (example_queue FifoQueue ''queue'') x"
    by (simp add: roundtrips_def nonempty_data_def example_queue_def Base_serialize_def
        Base_unserialize_def example_serializer_def example_dumps_def example_loads_def)
  have l: "length [PStr ''A'', PStr ''B'', PStr ''C''] = 3" by simp
  show ?thesis
    using FifoQueue_pops_nonempty_in_push_order [OF c e r, where t = 0] unfolding l .
qed

section \<open>PriorityQueue\<close>

text \<open>
  C2, as the code has it. Tasks that the codec decodes back to themselves and whose score
  the sorted set holds exactly (the double read from the negated priority is the negated
  priority) are pushed to an empty PriorityQueue without any push raising, equal
  priorities included. Popping as many times as there are different tasks then returns
  every pushed task once, in descending order of priority; the next pop returns None. (A
  task pushed twice is one member of the sorted set.) The scores held exactly include
  those of every float priority but \<open>nan\<close> and of every integer priority of magnitude up to
  \<open>2 ^ 53\<close> (\<open>held_exactly_float\<close>, \<open>held_exactly_int\<close>).
\<close>

theorem PriorityQueue_pops_by_priority:
  assumes "q_cls q = PriorityQueue" and "pending q srv = Some []"
    and "\<forall>x\<in>set xs. roundtrips q x \<and> held_exactly x"
  shows "fst (push_all q xs srv) = Inr () \<and>
         (\<exists>ps. fst (pop_n q t (length (remdups xs)) (snd (push_all q xs srv))) = Inr ps \<and>
               descending ps \<and> distinct ps \<and> set ps = set xs \<and>
               fst (pop q t (snd (pop_n q t (length (remdups xs)) (snd (push_all q xs srv)))))
                 = Inr PNone)"
proof -
  let ?s1 = "snd (push_all q xs srv)"
  have z0: "zset_of (q_key q) srv = Some []"
    using assms(1,2) by (auto simp: pending_def zset_of_def split: option.splits rval.splits)
  have h0: "\<forall>x\<in>{} \<union> set xs. roundtrips q x \<and> stored_score x \<noteq> None"
    using assms(3) by (simp add: held_exactly_stored)
  obtain zs where a: "fst (push_all q xs srv) = Inr ()"
    and z: "zset_of (q_key q) ?s1 = Some zs" and srt: "sorted zs"
    and dis: "distinct (map snd zs)" and st: "set zs = entry_of q ` set xs"
    using push_all_priority [OF assms(1) z0 _ _ _ h0] by auto
  define dec where "dec = (\<lambda>z :: double \<times> bytes.
    case Base_unserialize q (snd z) of Inl e \<Rightarrow> PNone | Inr v \<Rightarrow> v)"
  define ps where "ps = map dec zs"
  have dec_entry: "dec (entry_of q x) = x" if "x \<in> set xs" for x
    using that assms(3) by (simp add: dec_def entry_of_def roundtrips_data_of(2))
  have entry_dec: "entry_of q (dec z) = z" if "z \<in> set zs" for z
    using that st dec_entry by auto
  have me: "map (entry_of q) ps = zs"
    unfolding ps_def using entry_dec by (simp add: map_idI)
  have sp: "set ps = set xs"
    unfolding ps_def using st dec_entry by (auto simp: image_iff)
  have md: "map (data_of q) ps = map snd zs"
    using arg_cong [OF me, of "map snd"] by (simp add: entry_of_def comp_def)
  have pend: "pending q ?s1 = Some (map (data_of q) ps @ [])"
    using z assms(1) by (simp add: pending_priority md)
  have h: "\<forall>x\<in>set ps. roundtrips q x \<and> (nonempty_data q x \<or> q_cls q = PriorityQueue)"
    using assms(1,3) sp by simp
  have dp: "distinct ps"
    using dis md by (metis distinct_map)
  have "length ps = card (set ps)" using dp by (simp add: distinct_card)
  then have len: "length (remdups xs) = length ps"
    by (simp add: sp length_remdups_card_conv)
  note pops = pop_n_pending [OF pend h, where t = t]
  have sc: "sorted (map score ps)"
    using sorted_fst [OF srt] arg_cong [OF me, of "map fst"] by (simp add: entry_of_def comp_def)
  then have sw: "sorted_wrt (\<lambda>a b. score a \<le> score b) ps"
    by (simp add: sorted_map)
  have he: "\<forall>x\<in>set ps. held_exactly x"
    using assms(3) sp by simp
  have de: "descending ps"
    unfolding descending_def
    by (rule sorted_wrt_mono_rel [OF _ sw]) (simp add: he held_exactly_le)
  have last: "fst (pop q t (snd (pop_n q t (length ps) ?s1))) = Inr PNone"
    using pops by (simp add: pop_pending_Nil(1))
  show ?thesis
    unfolding len using a pops de dp sp last by blast
qed

theorem PriorityQueue_pops_by_priority_witness:
  "fst (push_all (example_queue PriorityQueue ''queue'')
          [PTask (NInt 3) ''a'', PTask (NInt 1) ''b'', PTask (NInt 2) ''c''] empty_server)
     = Inr () \<and>
   (\<exists>ps. fst (pop_n (example_queue PriorityQueue ''queue'') 0 3
                 (snd (push_all (example_queue PriorityQueue ''queue'')
                         [PTask (NInt 3) ''a'', PTask (NInt 1) ''b'', PTask (NInt 2) ''c'']
                         empty_server)))
           = Inr ps \<and>
         descending ps \<and> distinct ps \<and>
         set ps = set [PTask (NInt 3) ''a'', PTask (NInt 1) ''b'', PTask (NInt 2) ''c''] \<and>
         fst (pop (example_queue PriorityQueue ''queue'') 0
                (snd (pop_n (example_queue PriorityQueue ''queue'') 0 3
                        (snd (push_all (example_queue PriorityQueue ''queue'')
                                [PTask (NInt 3) ''a'', PTask (NInt 1) ''b'',
                                 PTask (NInt 2) ''c''] empty_server)))))
           = Inr PNone)"
proof -
  have c: "q_cls (example_queue PriorityQueue ''queue'') = PriorityQueue"
    by (simp add: example_queue_def)
  have e: "pending (example_queue PriorityQueue ''queue'') empty_server = Some []"
    by (simp add: pending_def example_queue_def empty_server_def)
  have r: "\<forall>x\<in>set [PTask (NInt 3) ''a'', PTask (NInt 1) ''b'', PTask (NInt 2) ''c''].
             roundtrips (example_queue PriorityQueue ''queue'') x \<and> held_exactly x"
    by code_simp
  have l: "length (remdups [PTask (NInt 3) ''a'', PTask (NInt 1) ''b'', PTask (NInt 2) ''c''])
             = 3"
    by simp
  show ?thesis
    using PriorityQueue_pops_by_priority [OF c e r, where t = 0] unfolding l .
qed

text \<open>
  The pops of examples, evaluated: priorities 3, 1, 2 come back as 3, 2, 1; the float
  priority 2.5 comes between 3 and 1, and of two tasks of priority 1 each comes back once.
\<close>

lemma PriorityQueue_example_pops:
  "fst (pop_n (example_queue PriorityQueue ''queue'') 0 3
          (snd (push_all (example_queue PriorityQueue ''queue'')
                  [PTask (NInt 3) ''a'', PTask (NInt 1) ''b'', PTask (NInt 2) ''c'']
                  empty_server)))
     = Inr [PTask (NInt 3) ''a'', PTask (NInt 2) ''c'', PTask (NInt 1) ''b'']"
  "fst (pop_n (example_queue PriorityQueue ''queue'') 0 4
          (snd (push_all (example_queue PriorityQueue ''queue'')
                  [PTask (NInt 1) ''b'', PTask (NFloat (Finite 5 (- 1))) ''c'',
                   PTask (NInt 3) ''a'', PTask (NInt 1) ''a''] empty_server)))
     = Inr [PTask (NInt 3) ''a'', PTask (NFloat (Finite 5 (- 1))) ''c'',
            PTask (NInt 1) ''a'', PTask (NInt 1) ''b'']"
  by code_simp+

text \<open>
  C2 as it is written fails where two priorities differ and their scores are the same
  double. The integers \<open>2 ^ 53 + 1\<close> and \<open>2 ^ 53\<close> are such a pair: both tasks are encoded
  and decoded by the codec and pushed without an error, their scores tie, the sorted set
  orders them by their bytes, and the task of the lower priority is popped first.
\<close>

theorem PriorityQueue_equal_doubles_counterexample:
  "roundtrips (example_queue PriorityQueue ''queue'') (PTask (NInt 9007199254740993) ''a'') \<and>
   roundtrips (example_queue PriorityQueue ''queue'') (PTask (NInt 9007199254740992) ''b'') \<and>
   fst (push_all (example_queue PriorityQueue ''queue'')
          [PTask (NInt 9007199254740993) ''a'', PTask (NInt 9007199254740992) ''b'']
          empty_server) = Inr () \<and>
   fst (pop_n (example_queue PriorityQueue ''queue'') 0 2
          (snd (push_all (example_queue PriorityQueue ''queue'')
                  [PTask (NInt 9007199254740993) ''a'', PTask (NInt 9007199254740992) ''b'']
                  empty_server)))
     = Inr [PTask (NInt 9007199254740992) ''b'', PTask (NInt 9007199254740993) ''a''] \<and>
   \<not> descending [PTask (NInt 9007199254740992) ''b'', PTask (NInt 9007199254740993) ''a'']"
  by code_simp

section \<open>Falsy tasks\<close>



section \<open>pipe\<close>

text \<open>
  C5, evaluated where it fails. The example pipe scheduler (FIFO on both sides) takes the
  task 0 on its inbound side, which then holds one item. \<open>pipe\<close> returns False; afterwards
  the inbound queue and the outbound queue are both empty: the item has left the inbound
  queue and has not reached the outbound queue.
\<close>

theorem PipeScheduler_pipe_loses_zero:
  "fst (PipeScheduler_enqueue (example_pipe_scheduler FifoQueue FifoQueue) (PInt 0) ''in''
          empty_server) = Inr True \<and>
   fst (len (example_queue FifoQueue ''queue_in'') zero_inbound) = Inr 1 \<and>
   fst (PipeScheduler_pipe (example_pipe_scheduler FifoQueue FifoQueue) zero_inbound)
     = Inr False \<and>
   fst (len (example_queue FifoQueue ''queue_in'')
          (snd (PipeScheduler_pipe (example_pipe_scheduler FifoQueue FifoQueue) zero_inbound)))
     = Inr 0 \<and>
   fst (len (example_queue FifoQueue ''queue_out'')
          (snd (PipeScheduler_pipe (example_pipe_scheduler FifoQueue FifoQueue) zero_inbound)))
     = Inr 0"
  by code_simp

text \<open>
  What \<open>pipe\<close> does otherwise: a truthy item leaves the inbound queue and is pushed to the
  outbound queue, and on an empty inbound queue \<open>pipe\<close> returns False and changes no
  other key.
\<close>

lemma PipeScheduler_pipe_truthy:
  assumes "queue_in psch = Some qi" and "queue_out psch = Some qo"
    and "pending qi srv = Some (b # rest)" and "Base_unserialize qi b = Inr v"
    and "truthy v" and "b \<noteq> [] \<or> q_cls qi = PriorityQueue"
  shows "\<exists>s. pop qi (p_idle_before_close psch) srv = (Inr v, s) \<and>
             pending qi s = Some rest \<and>
             PipeScheduler_pipe psch srv = bind (push qo v s) (\<lambda>u s'. (Inr True, s'))"
proof -
  note popc = pop_pending_Cons [OF assms(3), where t = "p_idle_before_close psch"]
  have "fst (pop qi (p_idle_before_close psch) srv) = Inr v"
    using popc(1) assms(4,6) by auto
  then obtain s where p: "pop qi (p_idle_before_close psch) srv = (Inr v, s)"
    by (cases "pop qi (p_idle_before_close psch) srv") auto
  have "pending qi s = Some rest" using popc(2) by (simp add: p)
  moreover have "PipeScheduler_pipe psch srv = bind (push qo v s) (\<lambda>u s'. (Inr True, s'))"
    using assms(1,2,5)
    by (simp add: PipeScheduler_pipe_def PipeScheduler_dequeue_def PipeScheduler_enqueue_def p)
  ultimately show ?thesis using p by blast
qed

lemma PipeScheduler_pipe_empty:
  assumes "queue_in psch = Some qi" and "pending qi srv = Some []"
  shows "fst (PipeScheduler_pipe psch srv) = Inr False"
    and "k \<noteq> q_key qi \<Longrightarrow> store (snd (PipeScheduler_pipe psch srv)) k = store srv k"
    and "pending qi (snd (PipeScheduler_pipe psch srv)) = Some []"
proof -
  note popn = pop_pending_Nil [OF assms(2), where t = "p_idle_before_close psch"]
  obtain s where p: "pop qi (p_idle_before_close psch) srv = (Inr PNone, s)"
    using popn(1) by (cases "pop qi (p_idle_before_close psch) srv") auto
  have r: "PipeScheduler_pipe psch srv = (Inr False, s)"
    using assms(1) by (simp add: PipeScheduler_pipe_def PipeScheduler_dequeue_def p)
  show "fst (PipeScheduler_pipe psch srv) = Inr False" by (simp add: r)
  show "store (snd (PipeScheduler_pipe psch srv)) k = store srv k" if "k \<noteq> q_key qi"
    using popn(3) [OF that] by (simp add: r p)
  show "pending qi (snd (PipeScheduler_pipe psch srv)) = Some []"
    using popn(2) by (simp add: r p)
qed

section \<open>RFPDupeFilter\<close>

text \<open>
  C3, as the code has it. After \<open>clear\<close>, whatever the store held, the first \<open>obj_seen\<close> of
  a task returns False and leaves its fingerprint as the only member; after any further
  \<open>obj_seen\<close> calls, \<open>obj_seen\<close> of a task with the same fingerprint returns True; after
  another \<open>clear\<close> it returns False again. Construction does not touch the store: on a
  newly constructed filter whose key holds the member set \<open>ms\<close> (nothing being the empty
  set), \<open>obj_seen\<close> returns whether the fingerprint is in \<open>ms\<close> already, so False exactly
  when it is not, and adds the fingerprint to the set.
\<close>

theorem dedup_seen_until_clear:
  "(let s0 = snd (RFPDupeFilter_clear d srv);
        s1 = snd (RFPDupeFilter_obj_seen fp d x s0);
        s2 = snd (seen_all fp d ys s1)
    in fst (RFPDupeFilter_obj_seen fp d x s0) = Inr False \<and>
       members (df_key d) s1 = Some {fp x} \<and>
       (fp y = fp x \<longrightarrow> fst (RFPDupeFilter_obj_seen fp d y s2) = Inr True) \<and>
       fst (RFPDupeFilter_obj_seen fp d x (snd (RFPDupeFilter_clear d s2))) = Inr False) \<and>
   (members k srv = Some ms \<longrightarrow>
      fst (RFPDupeFilter_obj_seen fp (RFPDupeFilter_init k debug) x srv) = Inr (fp x \<in> ms) \<and>
      members k (snd (RFPDupeFilter_obj_seen fp (RFPDupeFilter_init k debug) x srv))
        = Some (insert (fp x) ms))"
proof -
  let ?s0 = "snd (RFPDupeFilter_clear d srv)"
  let ?s1 = "snd (RFPDupeFilter_obj_seen fp d x ?s0)"
  let ?s2 = "snd (seen_all fp d ys ?s1)"
  have m0: "members (df_key d) ?s0 = Some {}" by (rule clear_members(2))
  have a: "fst (RFPDupeFilter_obj_seen fp d x ?s0) = Inr False"
    by (simp add: obj_seen_members [OF m0])
  have m1: "members (df_key d) ?s1 = Some {fp x}"
    by (simp add: obj_seen_members [OF m0])
  obtain rs s where r: "seen_all fp d ys ?s1 = (Inr rs, s)"
    and m2: "members (df_key d) s = Some ({fp x} \<union> fp ` set ys)"
    using seen_all_members [OF m1] by blast
  have b: "fp y = fp x \<longrightarrow> fst (RFPDupeFilter_obj_seen fp d y ?s2) = Inr True"
    by (simp add: r obj_seen_members [OF m2])
  have c: "fst (RFPDupeFilter_obj_seen fp d x (snd (RFPDupeFilter_clear d ?s2))) = Inr False"
    by (simp add: obj_seen_members [OF clear_members(2)])
  have e: "members k srv = Some ms \<longrightarrow>
      fst (RFPDupeFilter_obj_seen fp (RFPDupeFilter_init k debug) x srv) = Inr (fp x \<in> ms) \<and>
      members k (snd (RFPDupeFilter_obj_seen fp (RFPDupeFilter_init k debug) x srv))
        = Some (insert (fp x) ms)"
  proof
    assume "members k srv = Some ms"
    then have "members (df_key (RFPDupeFilter_init k debug)) srv = Some ms"
      by (simp add: RFPDupeFilter_init_def)
    from obj_seen_members [OF this]
    show "fst (RFPDupeFilter_obj_seen fp (RFPDupeFilter_init k debug) x srv) = Inr (fp x \<in> ms) \<and>
      members k (snd (RFPDupeFilter_obj_seen fp (RFPDupeFilter_init k debug) x srv))
        = Some (insert (fp x) ms)"
      by (simp add: RFPDupeFilter_init_def)
  qed
  show ?thesis
    unfolding Let_def using a m1 b c e by blast
qed

theorem dedup_seen_until_clear_witness:
  "(let d = RFPDupeFilter_init ''dupefilter'' False;
        s0 = snd (RFPDupeFilter_clear d example_server);
        s1 = snd (RFPDupeFilter_obj_seen example_fingerprint d (PStr ''job'') s0);
        s2 = snd (seen_all example_fingerprint d [PStr ''other''] s1)
    in fst (RFPDupeFilter_obj_seen example_fingerprint d (PStr ''job'') s0) = Inr False \<and>
       fst (RFPDupeFilter_obj_seen example_fingerprint d (PStr ''job'') s2) = Inr True \<and>
       fst (RFPDupeFilter_obj_seen example_fingerprint d (PStr ''job'')
              (snd (RFPDupeFilter_clear d s2))) = Inr False) \<and>
   fst (RFPDupeFilter_obj_seen example_fingerprint (RFPDupeFilter_init ''fresh'' False)
          (PStr ''job'') example_server) = Inr False"
proof -
  have same: "example_fingerprint (PStr ''job'') = example_fingerprint (PStr ''job'')"
    by simp
  have fresh: "members ''fresh'' example_server = Some {}"
    by (simp add: members_def example_server_def)
  show ?thesis
    using same fresh
      dedup_seen_until_clear [where d = "RFPDupeFilter_init ''dupefilter'' False"
        and srv = example_server and fp = example_fingerprint and x = "PStr ''job''"
        and ys = "[PStr ''other'']" and y = "PStr ''job''" and k = "''fresh''" and ms = "{}"
        and debug = False]
    by (simp add: Let_def)
qed

text \<open>
  C3 as it is written fails on a filter constructed over a key that already holds the
  task's fingerprint: the first \<open>obj_seen\<close> after construction returns True.
\<close>

theorem first_seen_after_construction_counterexample:
  "fst (RFPDupeFilter_obj_seen example_fingerprint (RFPDupeFilter_init ''dupefilter'' False)
          (PStr ''job'') example_server) = Inr True"
  by (simp add: RFPDupeFilter_obj_seen_def RFPDupeFilter_init_def sadd_def example_server_def
      example_fingerprint_def example_dumps_def)

section \<open>DupeFilterScheduler.enqueue\<close>



end
